theory Spec2Isabelle
  imports Complex_Main
begin

section \<open>SWARM C2 backend (backend/main.go): data model\<close>

text \<open>
  Values decoded by \<^verbatim>\<open>encoding/json\<close> into \<^verbatim>\<open>interface{}\<close>: null, bool, float64,
  string, array, object. A float64 that comes out of a JSON text is finite, so it is
  modelled by the real number it denotes.
\<close>

datatype jvalue =
    JNull
  | JBool bool
  | JNumber real
  | JString string
  | JArray "jvalue list"
  | JObject "(string \<times> jvalue) list"

text \<open>Instants are nanoseconds since the Unix epoch, durations are nanoseconds.\<close>

type_synonym time = int
type_synonym duration = int

definition Second :: duration where
  "Second = 1000000000"

text \<open>\<^verbatim>\<open>type Aircraft struct\<close>: a pointer field is an option, \<^verbatim>\<open>nil\<close> is \<open>None\<close>.\<close>

record Aircraft =
  ICAO24 :: string
  Callsign :: string
  OriginCountry :: string
  TimePosition :: "int option"
  LastContact :: int
  Longitude :: "real option"
  Latitude :: "real option"
  BaroAltitude :: "real option"
  OnGround :: bool
  Velocity :: "real option"
  TrueTrack :: "real option"
  VerticalRate :: "real option"
  Sensors :: "int list option"
  GeoAltitude :: "real option"
  Squawk :: "string option"
  SPI :: bool
  PositionSource :: int
  Category :: int

text \<open>\<^verbatim>\<open>type Region struct\<close> and the predefined \<^verbatim>\<open>regions\<close> map (main.go 218--256).\<close>

record Region =
  Name :: string
  MinLat :: real
  MaxLat :: real
  MinLon :: real
  MaxLon :: real

definition regions :: "string \<rightharpoonup> Region" where
  "regions =
     [''taiwan'' \<mapsto> \<lparr> Name = ''Taiwan Strait'',
                      MinLat = 21.5, MaxLat = 26.0, MinLon = 117.0, MaxLon = 123.0 \<rparr>,
      ''socal'' \<mapsto> \<lparr> Name = ''Southern California'',
                     MinLat = 32.5, MaxLat = 34.5, MinLon = - 120.0, MaxLon = - 117.0 \<rparr>,
      ''europe'' \<mapsto> \<lparr> Name = ''United Kingdom'',
                      MinLat = 49.9, MaxLat = 60.9, MinLon = - 8.2, MaxLon = 1.8 \<rparr>,
      ''global'' \<mapsto> \<lparr> Name = ''Global'',
                      MinLat = - 90.0, MaxLat = 90.0, MinLon = - 180.0, MaxLon = 180.0 \<rparr>]"

text \<open>
  \<^verbatim>\<open>type AirspaceData struct\<close>, the snapshot sent to clients. Its fields carry the prefix
  \<open>ad_\<close> because \<^verbatim>\<open>Timestamp\<close> and \<^verbatim>\<open>Region\<close> are fields of \<^verbatim>\<open>TacticalAnalysis\<close> too.
\<close>

record AirspaceData =
  ad_Timestamp :: int
  ad_Aircraft :: "Aircraft list"
  ad_Region :: string
  ad_Count :: int

text \<open>
  \<^verbatim>\<open>type TacticalAnalysis struct\<close> (main.go 162--174). A \<^verbatim>\<open>map[string]interface{}\<close> is a list
  of key/value pairs; a \<^verbatim>\<open>nil\<close> slice or map is \<open>None\<close>.
\<close>

type_synonym jmap = "(string \<times> jvalue) list"

record TacticalAnalysis =
  Timestamp :: string
  Region :: string
  OverallThreatLevel :: string
  ThreatScore :: int
  Summary :: string
  KeyObservations :: "jmap list option"
  AircraftOfInterest :: "jmap list option"
  TacticalRecommendations :: "jmap list option"
  PatternAnalysis :: "jmap option"
  NextUpdatePriority :: string
  Raw :: string

text \<open>
  Library behaviour the program relies on and does not define. These are parameters of
  the model:
  \<^item> \<open>convInt64\<close>, \<open>convInt\<close>: the conversions \<^verbatim>\<open>int64(f)\<close> and \<^verbatim>\<open>int(f)\<close> of a float64 (Go
    leaves them implementation-defined outside the target range);
  \<^item> \<open>unmarshalAnalysis\<close>: \<^verbatim>\<open>json.Unmarshal(data, &analysis)\<close> into a zero
    \<^verbatim>\<open>TacticalAnalysis\<close>, \<open>None\<close> when it returns an error;
  \<^item> \<open>formatRFC3339\<close>: \<^verbatim>\<open>t.UTC().Format(time.RFC3339)\<close>.
\<close>

record golib =
  convInt64 :: "real \<Rightarrow> int"
  convInt :: "real \<Rightarrow> int"
  unmarshalAnalysis :: "string \<Rightarrow> TacticalAnalysis option"
  formatRFC3339 :: "time \<Rightarrow> string"

subsection \<open>Helper functions for type conversion (main.go 933--982)\<close>

fun getString :: "jvalue \<Rightarrow> string" where
  "getString (JString s) = s"
| "getString _ = []"

fun getStringPtr :: "jvalue \<Rightarrow> string option" where
  "getStringPtr (JString s) = Some s"
| "getStringPtr _ = None"

fun getFloat64Ptr :: "jvalue \<Rightarrow> real option" where
  "getFloat64Ptr (JNumber f) = Some f"
| "getFloat64Ptr _ = None"

fun getInt64Ptr :: "golib \<Rightarrow> jvalue \<Rightarrow> int option" where
  "getInt64Ptr L (JNumber f) = Some (convInt64 L f)"
| "getInt64Ptr L _ = None"

fun getInt64 :: "golib \<Rightarrow> jvalue \<Rightarrow> int" where
  "getInt64 L (JNumber f) = convInt64 L f"
| "getInt64 L _ = 0"

fun getInt :: "golib \<Rightarrow> jvalue \<Rightarrow> int" where
  "getInt L (JNumber f) = convInt L f"
| "getInt L _ = 0"

fun getBool :: "jvalue \<Rightarrow> bool" where
  "getBool (JBool b) = b"
| "getBool _ = False"

subsection \<open>parseAircraftStates (main.go 773--807)\<close>

text \<open>
  The struct literal of lines 781--798. It indexes the row up to position 16, which the
  loop only does behind its guard \<^verbatim>\<open>len(state) < 17\<close>; \<^verbatim>\<open>Sensors\<close> and \<^verbatim>\<open>Category\<close> are not
  set and keep their zero values.
\<close>

definition aircraftOfState :: "golib \<Rightarrow> jvalue list \<Rightarrow> Aircraft" where
  "aircraftOfState L state =
     \<lparr> ICAO24 = getString (state ! 0),
       Callsign = getString (state ! 1),
       OriginCountry = getString (state ! 2),
       TimePosition = getInt64Ptr L (state ! 3),
       LastContact = getInt64 L (state ! 4),
       Longitude = getFloat64Ptr (state ! 5),
       Latitude = getFloat64Ptr (state ! 6),
       BaroAltitude = getFloat64Ptr (state ! 7),
       OnGround = getBool (state ! 8),
       Velocity = getFloat64Ptr (state ! 9),
       TrueTrack = getFloat64Ptr (state ! 10),
       VerticalRate = getFloat64Ptr (state ! 11),
       Sensors = None,
       GeoAltitude = getFloat64Ptr (state ! 13),
       Squawk = getStringPtr (state ! 14),
       SPI = getBool (state ! 15),
       PositionSource = getInt L (state ! 16),
       Category = 0 \<rparr>"

text \<open>The \<^verbatim>\<open>for _, state := range states\<close> loop, with the slice being appended to.\<close>

fun parseAircraftStates_loop ::
  "golib \<Rightarrow> jvalue list list \<Rightarrow> Aircraft list \<Rightarrow> Aircraft list" where
  "parseAircraftStates_loop L [] aircraft = aircraft"
| "parseAircraftStates_loop L (state # rest) aircraft =
     (if length state < 17 then parseAircraftStates_loop L rest aircraft
      else
        let ac = aircraftOfState L state in
        if Latitude ac \<noteq> None \<and> Longitude ac \<noteq> None
        then parseAircraftStates_loop L rest (aircraft @ [ac])
        else parseAircraftStates_loop L rest aircraft)"

definition parseAircraftStates :: "golib \<Rightarrow> jvalue list list \<Rightarrow> Aircraft list" where
  "parseAircraftStates L states = parseAircraftStates_loop L states []"


section \<open>Process state and environment\<close>

text \<open>
  The environment variables the backend reads with \<^verbatim>\<open>os.Getenv\<close> (an unset variable reads as
  the empty string).
\<close>

record env =
  OPENSKY_CLIENT_ID :: string
  OPENSKY_CLIENT_SECRET :: string
  OPENSKY_USERNAME :: string
  OPENSKY_PASSWORD :: string
  OPENAI_API_KEY :: string

text \<open>A WebSocket connection handle (\<^verbatim>\<open>*websocket.Conn\<close>).\<close>

type_synonym conn = nat

text \<open>
  What \<^verbatim>\<open>conn.WriteJSON\<close> is given: a raw snapshot, or the
  \<^verbatim>\<open>{type: "analysis", region, analysis}\<close> message of \<^verbatim>\<open>broadcastAnalysisToClients\<close>.
\<close>

datatype ws_message =
    SnapshotMsg AirspaceData
  | AnalysisMsg string TacticalAnalysis

text \<open>The outbound HTTP requests of the backend, as far as the model records them.\<close>

datatype auth_header = NoAuth | Bearer string | BasicAuth string string

datatype http_request =
    TokenExchange string string
  | StatesQuery Region auth_header
  | ChatCompletion string string "Aircraft list"

text \<open>
  The package-level variables of main.go (176--179, 258--280), together with what the
  model has to observe of the outside: the clock read by \<^verbatim>\<open>time.Now\<close>, the messages
  written to every connection (in order, whether or not the write succeeded), the
  outbound requests issued so far, and for every query sent to the states endpoint the
  instant at which \<^verbatim>\<open>client.Do\<close> was called with it (oldest first).
\<close>

record server =
  clock :: time
  clients :: "conn \<rightharpoonup> string"
  airspaceCache :: "string \<rightharpoonup> AirspaceData"
  analysisCache :: "string \<rightharpoonup> TacticalAnalysis"
  lastOpenSkyCall :: time
  oauthToken :: string
  oauthTokenExpiry :: time
  sent :: "conn \<Rightarrow> ws_message list"
  requests :: "http_request list"
  queryStarts :: "time list"

text \<open>The zero \<^verbatim>\<open>time.Time\<close>: January 1, year 1, 00:00 UTC.\<close>

definition zeroTime :: time where
  "zeroTime = - 62135596800 * Second"

definition initial_server :: "time \<Rightarrow> server" where
  "initial_server t0 =
     \<lparr> clock = t0, clients = Map.empty, airspaceCache = Map.empty, analysisCache = Map.empty,
       lastOpenSkyCall = zeroTime, oauthToken = [], oauthTokenExpiry = zeroTime,
       sent = (\<lambda>c. []), requests = [], queryStarts = [] \<rparr>"

subsection \<open>Durations\<close>

text \<open>
  A \<^verbatim>\<open>time.Duration\<close> is an int64 of nanoseconds: \<^verbatim>\<open>Time.Sub\<close> saturates at the ends of the
  range, arithmetic on durations wraps.
\<close>

definition maxDuration :: duration where
  "maxDuration = 2 ^ 63 - 1"

definition minDuration :: duration where
  "minDuration = - (2 ^ 63)"

definition time_Sub :: "time \<Rightarrow> time \<Rightarrow> duration" where
  "time_Sub t u =
     (let d = t - u in
      if d > maxDuration then maxDuration else if d < minDuration then minDuration else d)"

definition wrap64 :: "int \<Rightarrow> int" where
  "wrap64 x = (x + 2 ^ 63) mod 2 ^ 64 - 2 ^ 63"

text \<open>
  \<^verbatim>\<open>time.Sleep(d)\<close> returns at once when \<open>d \<le> 0\<close>, and otherwise no earlier than \<open>d\<close> from
  now: \<open>wakeTime\<close> is the earliest instant at which it returns, \<open>extra\<close> is how much later
  than that the caller runs again.
\<close>

definition wakeTime :: "time \<Rightarrow> duration \<Rightarrow> time" where
  "wakeTime now d = now + (if d \<le> 0 then 0 else d)"

definition time_Sleep :: "duration \<Rightarrow> nat \<Rightarrow> server \<Rightarrow> server" where
  "time_Sleep d extra st = st\<lparr>clock := wakeTime (clock st) d + int extra\<rparr>"

section \<open>Subscriber registry and broadcast (main.go 524--541, 809--883)\<close>

definition writeJSON :: "conn \<Rightarrow> ws_message \<Rightarrow> server \<Rightarrow> server" where
  "writeJSON c m st = st\<lparr>sent := (sent st)(c := sent st c @ [m])\<rparr>"

text \<open>
  \<^verbatim>\<open>for conn, clientRegion := range clients\<close>: every connection whose region matches is
  written to once. The order among connections is Go's map order and is not observable
  in the per-connection logs.
\<close>

definition broadcastToClients :: "string \<Rightarrow> AirspaceData \<Rightarrow> server \<Rightarrow> server" where
  "broadcastToClients region data st =
     st\<lparr>sent := (\<lambda>c. if clients st c = Some region then sent st c @ [SnapshotMsg data]
                      else sent st c)\<rparr>"

definition broadcastAnalysisToClients :: "string \<Rightarrow> TacticalAnalysis \<Rightarrow> server \<Rightarrow> server" where
  "broadcastAnalysisToClients region analysis st =
     st\<lparr>sent := (\<lambda>c. if clients st c = Some region
                      then sent st c @ [AnalysisMsg region analysis]
                      else sent st c)\<rparr>"

text \<open>
  \<^verbatim>\<open>handleWebSocket\<close> in three steps: what it does once the upgrade has succeeded
  (lines 816--833), one turn of its read loop (lines 845--868) and its deferred clean-up
  (lines 836--842). \<open>regionQuery\<close> is \<^verbatim>\<open>r.URL.Query().Get("region")\<close>.
\<close>

definition handleWebSocket_connect :: "conn \<Rightarrow> string \<Rightarrow> server \<Rightarrow> server" where
  "handleWebSocket_connect c regionQuery st =
     (let region = (if regionQuery = [] then ''taiwan'' else regionQuery);
          st1 = st\<lparr>clients := (clients st)(c \<mapsto> region)\<rparr>
      in case airspaceCache st1 region of
           Some data \<Rightarrow> writeJSON c (SnapshotMsg data) st1
         | None \<Rightarrow> st1)"

text \<open>
  The anonymous struct a client message is decoded into. The step takes the outcome of
  \<^verbatim>\<open>json.Unmarshal(msg, &request)\<close>: \<open>None\<close> when it returns an error, the decoded struct
  otherwise.
\<close>

record ws_request =
  req_Action :: string
  req_Region :: string

definition handleWebSocket_message :: "conn \<Rightarrow> ws_request option \<Rightarrow> server \<Rightarrow> server" where
  "handleWebSocket_message c decoded st =
     (case decoded of
        None \<Rightarrow> st
      | Some request \<Rightarrow>
          if req_Action request = ''subscribe'' then
            (let st1 = st\<lparr>clients := (clients st)(c \<mapsto> req_Region request)\<rparr>
             in case airspaceCache st1 (req_Region request) of
                  Some data \<Rightarrow> writeJSON c (SnapshotMsg data) st1
                | None \<Rightarrow> st1)
          else st)"

definition handleWebSocket_close :: "conn \<Rightarrow> server \<Rightarrow> server" where
  "handleWebSocket_close c st = st\<lparr>clients := (clients st)(c := None)\<rparr>"

section \<open>Credential cache (main.go 654--695)\<close>

text \<open>
  What the identity endpoint does with the token request: \<^verbatim>\<open>http.Post\<close> fails, or there is
  a response with a status code, the body text, and the outcome of decoding the body
  into \<^verbatim>\<open>{access_token, expires_in}\<close> (\<open>None\<close> when the decoder returns an error).
  \<open>tw_latency\<close> is the time the exchange takes.
\<close>

datatype token_reply =
    TokenPostError
  | TokenResponse nat string "(string \<times> int) option"

record token_world =
  tw_latency :: nat
  tw_reply :: token_reply

datatype token_error =
    NoOAuth2Credentials
  | TokenRequestFailed
  | TokenRequestReturned nat string
  | TokenParseFailed

definition getOpenSkyToken ::
  "env \<Rightarrow> token_world \<Rightarrow> server \<Rightarrow> (token_error + string) \<times> server" where
  "getOpenSkyToken E w st =
     (if OPENSKY_CLIENT_ID E = [] \<or> OPENSKY_CLIENT_SECRET E = []
      then (Inl NoOAuth2Credentials, st)
      else if oauthToken st \<noteq> [] \<and> clock st < oauthTokenExpiry st + (- 60 * Second)
      then (Inr (oauthToken st), st)
      else
        let st1 = st\<lparr>requests := requests st @
                         [TokenExchange (OPENSKY_CLIENT_ID E) (OPENSKY_CLIENT_SECRET E)],
                      clock := clock st + int (tw_latency w)\<rparr>
        in case tw_reply w of
             TokenPostError \<Rightarrow> (Inl TokenRequestFailed, st1)
           | TokenResponse code body decoded \<Rightarrow>
               if code \<noteq> 200 then (Inl (TokenRequestReturned code body), st1)
               else (case decoded of
                       None \<Rightarrow> (Inl TokenParseFailed, st1)
                     | Some (accessToken, expiresIn) \<Rightarrow>
                         (Inr accessToken,
                          st1\<lparr>oauthToken := accessToken,
                              oauthTokenExpiry := clock st1 + wrap64 (expiresIn * Second)\<rparr>)))"

section \<open>Rate-limited fetcher (main.go 697--771)\<close>

definition hasAuth :: "env \<Rightarrow> bool" where
  "hasAuth E \<longleftrightarrow> OPENSKY_CLIENT_ID E \<noteq> [] \<or> OPENSKY_USERNAME E \<noteq> []"

definition minGap :: "env \<Rightarrow> duration" where
  "minGap E = (if hasAuth E then 3 * Second else 6 * Second)"

text \<open>
  Lines 705--707: the time to wait, if any. \<open>lastCall\<close> is \<^verbatim>\<open>lastOpenSkyCall\<close>, \<open>now\<close> the
  clock at \<^verbatim>\<open>time.Since\<close>.
\<close>

definition limiterWait :: "env \<Rightarrow> time \<Rightarrow> time \<Rightarrow> duration option" where
  "limiterWait E lastCall now =
     (let elapsed = time_Sub now lastCall in
      if elapsed < minGap E then Some (wrap64 (minGap E - elapsed)) else None)"

text \<open>Lines 699--712, run without interruption: wait if needed, then stamp.\<close>

definition rateLimit :: "env \<Rightarrow> nat \<Rightarrow> server \<Rightarrow> server" where
  "rateLimit E extra st =
     (let st1 = (case limiterWait E (lastOpenSkyCall st) (clock st) of
                   Some wait \<Rightarrow> time_Sleep wait extra st
                 | None \<Rightarrow> st)
      in st1\<lparr>lastOpenSkyCall := clock st1\<rparr>)"

text \<open>
  What happens to the query: \<^verbatim>\<open>http.NewRequest\<close> fails (nothing is sent), or the request
  is issued and \<^verbatim>\<open>client.Do\<close> fails, or there is a response: its status code, the bytes
  \<^verbatim>\<open>io.ReadAll\<close> returns, whether \<^verbatim>\<open>io.ReadAll\<close> succeeded, and the \<^verbatim>\<open>States\<close> that
  \<^verbatim>\<open>json.Unmarshal\<close> decodes from the body (\<open>None\<close> when it returns an error).
\<close>

datatype opensky_result =
    SkyDoError
  | SkyResponse nat string bool "jvalue list list option"

datatype opensky_reply =
    SkyBuildError
  | SkyIssued opensky_result

record fetch_world =
  fw_sleep_extra :: nat
  fw_token :: token_world
  fw_latency :: nat
  fw_reply :: opensky_reply

datatype fetch_error =
    RequestBuildFailed
  | RequestFailed
  | RateLimited
  | AuthFailed
  | ApiReturned nat string
  | ReadBodyFailed
  | JSONParseFailed

text \<open>Lines 725--735: OAuth2, else basic auth, else anonymous.\<close>

definition attachAuth :: "env \<Rightarrow> token_world \<Rightarrow> server \<Rightarrow> auth_header \<times> server" where
  "attachAuth E tw st =
     (if OPENSKY_CLIENT_ID E \<noteq> [] then
        (case getOpenSkyToken E tw st of
           (Inl err, st1) \<Rightarrow> (NoAuth, st1)
         | (Inr token, st1) \<Rightarrow> (Bearer token, st1))
      else if OPENSKY_USERNAME E \<noteq> [] \<and> OPENSKY_PASSWORD E \<noteq> []
      then (BasicAuth (OPENSKY_USERNAME E) (OPENSKY_PASSWORD E), st)
      else (NoAuth, st))"

definition fetchOpenSkyData ::
  "golib \<Rightarrow> env \<Rightarrow> fetch_world \<Rightarrow> server \<Rightarrow> Region \<Rightarrow> (fetch_error + Aircraft list) \<times> server" where
  "fetchOpenSkyData L E w st region =
     (let st1 = rateLimit E (fw_sleep_extra w) st in
      case fw_reply w of
        SkyBuildError \<Rightarrow> (Inl RequestBuildFailed, st1)
      | SkyIssued result \<Rightarrow>
          (case attachAuth E (fw_token w) st1 of
             (auth, st2) \<Rightarrow>
               (let st3 = st2\<lparr>requests := requests st2 @ [StatesQuery region auth],
                              queryStarts := queryStarts st2 @ [clock st2],
                              clock := clock st2 + int (fw_latency w)\<rparr>
                in case result of
                     SkyDoError \<Rightarrow> (Inl RequestFailed, st3)
                   | SkyResponse code body readOK decoded \<Rightarrow>
                       if code = 429 then (Inl RateLimited, st3)
                       else if code = 401 then (Inl AuthFailed, st3\<lparr>oauthToken := []\<rparr>)
                       else if code \<noteq> 200 then (Inl (ApiReturned code body), st3)
                       else if \<not> readOK then (Inl ReadBodyFailed, st3)
                       else (case decoded of
                               None \<Rightarrow> (Inl JSONParseFailed, st3)
                             | Some states \<Rightarrow> (Inr (parseAircraftStates L states), st3)))))"

section \<open>Poller (main.go 629--652)\<close>

text \<open>
  \<^verbatim>\<open>fetchAndBroadcast\<close> has no result: on a fetch error it logs and returns.
  \<^verbatim>\<open>time.Now().Unix()\<close> is the clock in whole seconds.
\<close>

definition fetchAndBroadcast ::
  "golib \<Rightarrow> env \<Rightarrow> fetch_world \<Rightarrow> server \<Rightarrow> string \<Rightarrow> Region \<Rightarrow> server" where
  "fetchAndBroadcast L E w st regionName region =
     (case fetchOpenSkyData L E w st region of
        (Inl err, st1) \<Rightarrow> st1
      | (Inr aircraft, st1) \<Rightarrow>
          let data = \<lparr> ad_Timestamp = clock st1 div Second, ad_Aircraft = aircraft,
                       ad_Region = regionName, ad_Count = int (length aircraft) \<rparr>;
              st2 = st1\<lparr>airspaceCache := (airspaceCache st1)(regionName \<mapsto> data)\<rparr>
          in broadcastToClients regionName data st2)"

section \<open>Analysis engine (main.go 352--522, 569--609)\<close>

subsection \<open>Locating the JSON object in the reply\<close>

text \<open>
  \<^verbatim>\<open>for i, c := range s\<close> walks the runes of \<open>s\<close> with their byte offsets. The two braces
  are ASCII, no byte of a multi-byte rune equals an ASCII byte, and a malformed byte is
  passed over as a rune of width one, so walking the bytes finds the same offsets. A
  string is its list of bytes.
\<close>

fun findJSONStart_loop :: "nat \<Rightarrow> string \<Rightarrow> int" where
  "findJSONStart_loop i [] = - 1"
| "findJSONStart_loop i (c # s) =
     (if c = CHR ''{'' then int i else findJSONStart_loop (Suc i) s)"

definition findJSONStart :: "string \<Rightarrow> int" where
  "findJSONStart s = findJSONStart_loop 0 s"

fun findJSONEnd_loop :: "int \<Rightarrow> nat \<Rightarrow> string \<Rightarrow> int" where
  "findJSONEnd_loop depth i [] = - 1"
| "findJSONEnd_loop depth i (c # s) =
     (if c = CHR ''{'' then findJSONEnd_loop (depth + 1) (Suc i) s
      else if c = CHR ''}'' then
        (if depth - 1 = 0 then int i else findJSONEnd_loop (depth - 1) (Suc i) s)
      else findJSONEnd_loop depth (Suc i) s)"

definition findJSONEnd :: "string \<Rightarrow> int" where
  "findJSONEnd s = findJSONEnd_loop 0 0 s"

text \<open>
  The slice expression \<^verbatim>\<open>s[lo:hi]\<close>; it panics unless \<open>0 \<le> lo \<le> hi \<le> len(s)\<close>, which is
  \<open>None\<close> here.
\<close>

definition slice :: "string \<Rightarrow> int \<Rightarrow> int \<Rightarrow> string option" where
  "slice s lo hi =
     (if 0 \<le> lo \<and> lo \<le> hi \<and> hi \<le> int (length s)
      then Some (take (nat (hi - lo)) (drop (nat lo) s))
      else None)"

text \<open>Lines 470--479: \<^verbatim>\<open>jsonStart\<close>, \<^verbatim>\<open>jsonEnd\<close> and \<^verbatim>\<open>jsonContent\<close>.\<close>

definition jsonStartOf :: "string \<Rightarrow> int" where
  "jsonStartOf content = (let idx = findJSONStart content in if idx \<ge> 0 then idx else 0)"

definition jsonEndOf :: "string \<Rightarrow> int option" where
  "jsonEndOf content =
     (case slice content (jsonStartOf content) (int (length content)) of
        None \<Rightarrow> None
      | Some rest \<Rightarrow>
          (let idx = findJSONEnd rest in
           Some (if idx \<ge> 0 then jsonStartOf content + idx + 1 else int (length content))))"

definition jsonContentOf :: "string \<Rightarrow> string option" where
  "jsonContentOf content =
     (case jsonEndOf content of
        None \<Rightarrow> None
      | Some jsonEnd \<Rightarrow> slice content (jsonStartOf content) jsonEnd)"

subsection \<open>callOpenAIAnalysis\<close>

datatype analysis_error =
    MarshalRequestFailed
  | CreateRequestFailed
  | APIRequestFailed
  | ReadResponseFailed
  | ParseResponseFailed
  | OpenAIError string
  | NoResponseChoices
  | SliceBoundsPanic

text \<open>The record returned when the reply does not decode (lines 484--491).\<close>

definition degradedAnalysis :: "string \<Rightarrow> string \<Rightarrow> string \<Rightarrow> TacticalAnalysis" where
  "degradedAnalysis timestamp region content =
     \<lparr> Timestamp = timestamp,
       Region = region,
       OverallThreatLevel = ''UNKNOWN'',
       ThreatScore = 0,
       Summary = ''Analysis parsing failed - raw response available'',
       KeyObservations = None,
       AircraftOfInterest = None,
       TacticalRecommendations = None,
       PatternAnalysis = None,
       NextUpdatePriority = [],
       Raw = content \<rparr>"

text \<open>
  Lines 466--497: from the reply text \<open>content\<close> to the analysis; \<open>now\<close> is the clock at
  \<^verbatim>\<open>time.Now()\<close>.
\<close>

definition analysisOfContent ::
  "golib \<Rightarrow> time \<Rightarrow> string \<Rightarrow> string \<Rightarrow> analysis_error + TacticalAnalysis" where
  "analysisOfContent L now region content =
     (case jsonContentOf content of
        None \<Rightarrow> Inl SliceBoundsPanic
      | Some jsonContent \<Rightarrow>
          (case unmarshalAnalysis L jsonContent of
             None \<Rightarrow> Inr (degradedAnalysis (formatRFC3339 L now) region content)
           | Some analysis \<Rightarrow>
               Inr (analysis\<lparr>Timestamp := formatRFC3339 L now, Region := region\<rparr>)))"

text \<open>\<^verbatim>\<open>OpenAIMessage\<close>, \<^verbatim>\<open>OpenAIChoice\<close>, \<^verbatim>\<open>OpenAIResponse\<close> (main.go 138--159).\<close>

record OpenAIMessage =
  Role :: string
  Content :: string

record OpenAIChoice =
  Message :: OpenAIMessage

record OpenAIResponse =
  Choices :: "OpenAIChoice list"
  Error :: "string option"

text \<open>
  What happens to the chat-completion call: building the request fails (nothing is
  sent), or the request is issued and \<^verbatim>\<open>client.Do\<close> fails, reading the body fails, the
  body does not decode, or it decodes into an \<^verbatim>\<open>OpenAIResponse\<close>.
\<close>

datatype openai_result =
    AIDoError
  | AIReadError
  | AIParseError
  | AIDecoded OpenAIResponse

datatype openai_reply =
    AIMarshalError
  | AICreateError
  | AIIssued openai_result

record openai_world =
  ow_latency :: nat
  ow_reply :: openai_reply

definition callOpenAIAnalysis ::
  "golib \<Rightarrow> openai_world \<Rightarrow> server \<Rightarrow> string \<Rightarrow> string \<Rightarrow> Aircraft list \<Rightarrow>
   (analysis_error + TacticalAnalysis) \<times> server" where
  "callOpenAIAnalysis L w st apiKey region aircraft =
     (case ow_reply w of
        AIMarshalError \<Rightarrow> (Inl MarshalRequestFailed, st)
      | AICreateError \<Rightarrow> (Inl CreateRequestFailed, st)
      | AIIssued result \<Rightarrow>
          (let st1 = st\<lparr>requests := requests st @ [ChatCompletion apiKey region aircraft],
                        clock := clock st + int (ow_latency w)\<rparr>
           in case result of
                AIDoError \<Rightarrow> (Inl APIRequestFailed, st1)
              | AIReadError \<Rightarrow> (Inl ReadResponseFailed, st1)
              | AIParseError \<Rightarrow> (Inl ParseResponseFailed, st1)
              | AIDecoded openAIResp \<Rightarrow>
                  (case Error openAIResp of
                     Some msg \<Rightarrow> (Inl (OpenAIError msg), st1)
                   | None \<Rightarrow>
                       (case Choices openAIResp of
                          [] \<Rightarrow> (Inl NoResponseChoices, st1)
                        | choice # others \<Rightarrow>
                            (analysisOfContent L (clock st1) region
                               (Content (Message choice)), st1)))))"

subsection \<open>The periodic path and the on-demand path\<close>

text \<open>\<^verbatim>\<open>performAnalysis\<close> (lines 365--397), the body of every tick of \<^verbatim>\<open>runTacticalAnalysis\<close>.\<close>

definition performAnalysis ::
  "golib \<Rightarrow> env \<Rightarrow> openai_world \<Rightarrow> server \<Rightarrow> string \<Rightarrow> server" where
  "performAnalysis L E w st regionName =
     (if OPENAI_API_KEY E = [] then st
      else
        case airspaceCache st regionName of
          None \<Rightarrow> st
        | Some data \<Rightarrow>
            if length (ad_Aircraft data) = 0 then st
            else
              (case callOpenAIAnalysis L w st (OPENAI_API_KEY E) regionName (ad_Aircraft data) of
                 (Inl err, st1) \<Rightarrow> st1
               | (Inr analysis, st1) \<Rightarrow>
                   broadcastAnalysisToClients regionName analysis
                     (st1\<lparr>analysisCache := (analysisCache st1)(regionName \<mapsto> analysis)\<rparr>)))"

text \<open>
  \<^verbatim>\<open>handleRunAnalysis\<close> (lines 569--609) with its HTTP answer: an error status with its
  message, the error of the analysis call (status 500), or the analysis as JSON.
\<close>

datatype http_answer =
    HttpError nat string
  | HttpAnalysisError analysis_error
  | HttpAnalysis TacticalAnalysis

definition handleRunAnalysis ::
  "golib \<Rightarrow> env \<Rightarrow> openai_world \<Rightarrow> server \<Rightarrow> string \<Rightarrow> string \<Rightarrow> http_answer \<times> server" where
  "handleRunAnalysis L E w st httpMethod regionQuery =
     (if httpMethod \<noteq> ''POST'' then (HttpError 405 ''Method not allowed'', st)
      else
        let region = (if regionQuery = [] then ''taiwan'' else regionQuery) in
        if OPENAI_API_KEY E = [] then (HttpError 503 ''OPENAI_API_KEY not configured'', st)
        else
          case airspaceCache st region of
            None \<Rightarrow> (HttpError 503 ''No aircraft data available'', st)
          | Some data \<Rightarrow>
              if length (ad_Aircraft data) = 0
              then (HttpError 503 ''No aircraft data available'', st)
              else
                (case callOpenAIAnalysis L w st (OPENAI_API_KEY E) region (ad_Aircraft data) of
                   (Inl err, st1) \<Rightarrow> (HttpAnalysisError err, st1)
                 | (Inr analysis, st1) \<Rightarrow>
                     (HttpAnalysis analysis,
                      st1\<lparr>analysisCache := (analysisCache st1)(region \<mapsto> analysis)\<rparr>)))"

section \<open>The extraction of the reply's JSON, in the words of the specification\<close>

text \<open>
  The brace depth of a text is the number of its opening braces minus the number of its
  closing braces. The closing brace at offset \<open>j\<close> of \<open>s\<close> balances \<open>s\<close> when the depth of
  \<open>s\<close> up to and including that brace is zero.
\<close>

definition braceDepth :: "string \<Rightarrow> int" where
  "braceDepth s = int (count_list s CHR ''{'') - int (count_list s CHR ''}'')"

definition closesAt :: "string \<Rightarrow> nat \<Rightarrow> bool" where
  "closesAt s j \<longleftrightarrow> j < length s \<and> s ! j = CHR ''}'' \<and> braceDepth (take (Suc j) s) = 0"

text \<open>The reply from its first opening brace on; the whole reply when it has none.\<close>

definition bodyOf :: "string \<Rightarrow> string" where
  "bodyOf content =
     (let fromBrace = dropWhile (\<lambda>c. c \<noteq> CHR ''{'') content
      in if fromBrace = [] then content else fromBrace)"

text \<open>
  The text handed to the decoder: the body up to and including the first closing brace
  that balances it; the whole body when no brace does.
\<close>

definition spec_jsonContent :: "string \<Rightarrow> string" where
  "spec_jsonContent content =
     (let body = bodyOf content
      in case List.find (closesAt body) [0..<length body] of
           Some j \<Rightarrow> take (Suc j) body
         | None \<Rightarrow> body)"

text \<open>The depth count started at \<open>d\<close>, as the loop of \<^verbatim>\<open>findJSONEnd\<close> carries it.\<close>

definition closesFrom :: "int \<Rightarrow> string \<Rightarrow> nat \<Rightarrow> bool" where
  "closesFrom d s j \<longleftrightarrow> s ! j = CHR ''}'' \<and> d + braceDepth (take (Suc j) s) = 0"

section \<open>Auxiliary notions for stating the properties\<close>

text \<open>What a token exchange grants: the token and its lifetime in seconds, if any.\<close>

fun tokenGranted :: "token_reply \<Rightarrow> (string \<times> int) option" where
  "tokenGranted TokenPostError = None"
| "tokenGranted (TokenResponse code body decoded) = (if code = 200 then decoded else None)"

text \<open>The cached token is usable: there is one and more than 60 seconds remain.\<close>

definition tokenFresh :: "server \<Rightarrow> bool" where
  "tokenFresh st \<longleftrightarrow> oauthToken st \<noteq> [] \<and> clock st + 60 * Second < oauthTokenExpiry st"

text \<open>The region has a cached snapshot with at least one aircraft.\<close>

definition hasAircraft :: "server \<Rightarrow> string \<Rightarrow> bool" where
  "hasAircraft st regionName \<longleftrightarrow>
     (case airspaceCache st regionName of Some data \<Rightarrow> ad_Aircraft data \<noteq> [] | None \<Rightarrow> False)"

text \<open>The snapshot a connection is sent when it starts watching a region.\<close>

definition cachedSnapshot :: "server \<Rightarrow> string \<Rightarrow> ws_message list" where
  "cachedSnapshot st regionName =
     (case airspaceCache st regionName of Some data \<Rightarrow> [SnapshotMsg data] | None \<Rightarrow> [])"

text \<open>
  The instants at which the queries issued between two states of the server were
  started: what \<open>st'\<close> has logged beyond \<open>st\<close>.
\<close>

definition newQueryStarts :: "server \<Rightarrow> server \<Rightarrow> time list" where
  "newQueryStarts st st' = drop (length (queryStarts st)) (queryStarts st')"

section \<open>The rate limiter under concurrent fetchers (main.go 698--712, 737)\<close>

text \<open>
  Every poller and every REST handler that calls \<^verbatim>\<open>fetchOpenSkyData\<close> is a goroutine of its
  own, and they share \<^verbatim>\<open>openSkyMutex\<close> and \<^verbatim>\<open>lastOpenSkyCall\<close>. A goroutine is at one of
  these points of the function:
  \<^item> \<open>Idle\<close>: outside the prologue, before \<^verbatim>\<open>openSkyMutex.Lock()\<close>;
  \<^item> \<open>Checking\<close>: it holds the mutex and has not read \<^verbatim>\<open>time.Since(lastOpenSkyCall)\<close> yet;
  \<^item> \<open>Sleeping t\<close>: it holds the mutex inside \<^verbatim>\<open>time.Sleep(wait)\<close>, which returns no earlier
    than the instant \<open>t\<close>;
  \<^item> \<open>Stamping\<close>: it holds the mutex, before \<^verbatim>\<open>lastOpenSkyCall = time.Now()\<close>;
  \<^item> \<open>Unlocking u\<close>: it holds the mutex and has stamped the instant \<open>u\<close>;
  \<^item> \<open>Requesting u\<close>: it has released the mutex after stamping \<open>u\<close>, and its upstream
    request is still to be issued.
\<close>

type_synonym tid = nat

datatype pc =
    Idle
  | Checking
  | Sleeping time
  | Stamping
  | Unlocking time
  | Requesting time

fun holdsMutex :: "pc \<Rightarrow> bool" where
  "holdsMutex Idle = False"
| "holdsMutex Checking = True"
| "holdsMutex (Sleeping t) = True"
| "holdsMutex Stamping = True"
| "holdsMutex (Unlocking u) = True"
| "holdsMutex (Requesting u) = False"

text \<open>
  The shared state: the clock, the holder of the mutex, \<^verbatim>\<open>lastOpenSkyCall\<close>, where every
  goroutine is, and two logs, newest entry first: the instants stamped, and for every
  upstream request the stamp of its call and the instant the request started.
\<close>

record limiter =
  l_clock :: time
  l_mutex :: "tid option"
  l_lastOpenSkyCall :: time
  l_pc :: "tid \<Rightarrow> pc"
  l_stamps :: "time list"
  l_requests :: "(time \<times> time) list"

definition limiter_init :: "nat \<Rightarrow> limiter" where
  "limiter_init t0 =
     \<lparr> l_clock = int t0, l_mutex = None, l_lastOpenSkyCall = zeroTime,
       l_pc = (\<lambda>i. Idle), l_stamps = [], l_requests = [] \<rparr>"

text \<open>
  What can happen next: time passes, or one goroutine takes its next step. \<open>Lock\<close> is
  possible only while nobody holds the mutex, \<open>Wake\<close> only once the clock has reached
  the instant the sleep ends at.
\<close>

datatype action =
    Tick nat
  | Lock tid
  | Check tid
  | Wake tid
  | Stamp tid
  | Unlock tid
  | Request tid

definition moveTo :: "tid \<Rightarrow> pc \<Rightarrow> limiter \<Rightarrow> limiter" where
  "moveTo i p s = s\<lparr>l_pc := (l_pc s)(i := p)\<rparr>"

fun step :: "env \<Rightarrow> action \<Rightarrow> limiter \<Rightarrow> limiter option" where
  "step E (Tick d) s = Some (s\<lparr>l_clock := l_clock s + int d\<rparr>)"
| "step E (Lock i) s =
     (if l_pc s i = Idle \<and> l_mutex s = None
      then Some (moveTo i Checking (s\<lparr>l_mutex := Some i\<rparr>))
      else None)"
| "step E (Check i) s =
     (if l_pc s i = Checking then
        (case limiterWait E (l_lastOpenSkyCall s) (l_clock s) of
           Some wait \<Rightarrow> Some (moveTo i (Sleeping (wakeTime (l_clock s) wait)) s)
         | None \<Rightarrow> Some (moveTo i Stamping s))
      else None)"
| "step E (Wake i) s =
     (case l_pc s i of
        Sleeping t \<Rightarrow> if t \<le> l_clock s then Some (moveTo i Stamping s) else None
      | _ \<Rightarrow> None)"
| "step E (Stamp i) s =
     (if l_pc s i = Stamping
      then Some (moveTo i (Unlocking (l_clock s))
                  (s\<lparr>l_lastOpenSkyCall := l_clock s, l_stamps := l_clock s # l_stamps s\<rparr>))
      else None)"
| "step E (Unlock i) s =
     (case l_pc s i of
        Unlocking u \<Rightarrow> Some (moveTo i (Requesting u) (s\<lparr>l_mutex := None\<rparr>))
      | _ \<Rightarrow> None)"
| "step E (Request i) s =
     (case l_pc s i of
        Requesting u \<Rightarrow> Some (moveTo i Idle (s\<lparr>l_requests := (u, l_clock s) # l_requests s\<rparr>))
      | _ \<Rightarrow> None)"

fun run :: "env \<Rightarrow> action list \<Rightarrow> limiter \<Rightarrow> limiter option" where
  "run E [] s = Some s"
| "run E (a # as) s = (case step E a s of None \<Rightarrow> None | Some s' \<Rightarrow> run E as s')"

text \<open>
  The steps of one fetcher that runs its prologue without any other goroutine in between:
  it sleeps, when it has to, for the time asked and \<open>extra\<close> longer.
\<close>

definition solo_prologue :: "env \<Rightarrow> tid \<Rightarrow> nat \<Rightarrow> limiter \<Rightarrow> action list" where
  "solo_prologue E i extra s =
     [Lock i, Check i] @
     (case limiterWait E (l_lastOpenSkyCall s) (l_clock s) of
        Some wait \<Rightarrow> [Tick (nat (wakeTime (l_clock s) wait - l_clock s) + extra), Wake i]
      | None \<Rightarrow> []) @
     [Stamp i, Unlock i]"

text \<open>What the proof carries along every run.\<close>

definition limiter_inv :: "env \<Rightarrow> limiter \<Rightarrow> bool" where
  "limiter_inv E s \<longleftrightarrow>
     l_lastOpenSkyCall s \<le> l_clock s \<and>
     list_all (\<lambda>v. v \<le> l_lastOpenSkyCall s) (l_stamps s) \<and>
     sorted_wrt (\<lambda>newer older. older + minGap E \<le> newer) (l_stamps s) \<and>
     (\<forall>i. holdsMutex (l_pc s i) \<longrightarrow> l_mutex s = Some i) \<and>
     (\<forall>i t. l_pc s i = Sleeping t \<longrightarrow> l_lastOpenSkyCall s + minGap E \<le> t) \<and>
     (\<forall>i. l_pc s i = Stamping \<longrightarrow> l_lastOpenSkyCall s + minGap E \<le> l_clock s) \<and>
     (\<forall>i u. l_pc s i = Unlocking u \<or> l_pc s i = Requesting u \<longrightarrow>
        u \<in> set (l_stamps s) \<and> u \<le> l_clock s) \<and>
     list_all (\<lambda>(u, t). u \<in> set (l_stamps s) \<and> u \<le> t) (l_requests s)"

section \<open>Sample inputs\<close>

text \<open>
  One concrete choice of the library parameters, for evaluating the model on sample
  inputs. The conversions truncate towards zero (and give the least int64 outside the
  range, as on amd64).
\<close>

definition sample_conv :: "real \<Rightarrow> int" where
  "sample_conv f =
     (let t = (if f \<ge> 0 then \<lfloor>f\<rfloor> else \<lceil>f\<rceil>)
      in if - (2 ^ 63) \<le> t \<and> t < 2 ^ 63 then t else - (2 ^ 63))"

text \<open>The zero \<^verbatim>\<open>TacticalAnalysis\<close>, as \<^verbatim>\<open>var analysis TacticalAnalysis\<close> declares it.\<close>

definition zeroAnalysis :: TacticalAnalysis where
  "zeroAnalysis =
     \<lparr> Timestamp = [], Region = [], OverallThreatLevel = [], ThreatScore = 0, Summary = [],
       KeyObservations = None, AircraftOfInterest = None, TacticalRecommendations = None,
       PatternAnalysis = None, NextUpdatePriority = [], Raw = [] \<rparr>"

text \<open>
  The sample decoder is \<^verbatim>\<open>json.Unmarshal\<close> into a zero \<^verbatim>\<open>TacticalAnalysis\<close> on the texts of
  the one shape \<^verbatim>\<open>{"k1":"v1",...,"kn":"vn"}\<close> (at least one member, no white space between
  the tokens) whose keys are JSON names of the string fields and whose keys and values
  are printable ASCII characters other than the double quote and the backslash: every
  named field is set to its value, a later member overriding an earlier one of the same
  name. On any other text this sample returns an error; it is only applied to texts of
  that shape and to texts that are no JSON value at all.
\<close>

definition plainChar :: "char \<Rightarrow> bool" where
  "plainChar c \<longleftrightarrow>
     c \<noteq> CHR 0x22 \<and> c \<noteq> CHR 0x5C \<and> 32 \<le> (of_char c :: nat) \<and> (of_char c :: nat) < 127"

fun splitOn :: "char \<Rightarrow> string \<Rightarrow> string list" where
  "splitOn q [] = [[]]"
| "splitOn q (c # s) =
     (if c = q then [] # splitOn q s
      else (case splitOn q s of [] \<Rightarrow> [[c]] | w # ws \<Rightarrow> (c # w) # ws))"

fun membersOf :: "string list \<Rightarrow> (string \<times> string) list option" where
  "membersOf (k # colon # v # sep # rest) =
     (if colon = '':'' \<and> list_all plainChar k \<and> list_all plainChar v then
        (if sep = ''}'' \<and> rest = [] then Some [(k, v)]
         else if sep = '','' then map_option (\<lambda>kvs. (k, v) # kvs) (membersOf rest)
         else None)
      else None)"
| "membersOf _ = None"

definition setStringField :: "string \<times> string \<Rightarrow> TacticalAnalysis option \<Rightarrow> TacticalAnalysis option" where
  "setStringField kv target =
     (case target of
        None \<Rightarrow> None
      | Some a \<Rightarrow>
          if fst kv = ''timestamp'' then Some (a\<lparr>Timestamp := snd kv\<rparr>)
          else if fst kv = ''region'' then Some (a\<lparr>Region := snd kv\<rparr>)
          else if fst kv = ''overall_threat_level'' then Some (a\<lparr>OverallThreatLevel := snd kv\<rparr>)
          else if fst kv = ''summary'' then Some (a\<lparr>Summary := snd kv\<rparr>)
          else if fst kv = ''next_update_priority'' then Some (a\<lparr>NextUpdatePriority := snd kv\<rparr>)
          else if fst kv = ''raw'' then Some (a\<lparr>Raw := snd kv\<rparr>)
          else None)"

definition sample_unmarshalAnalysis :: "string \<Rightarrow> TacticalAnalysis option" where
  "sample_unmarshalAnalysis s =
     (case splitOn (CHR 0x22) s of
        [] \<Rightarrow> None
      | opening # rest \<Rightarrow>
          if opening = ''{'' then
            (case membersOf rest of
               None \<Rightarrow> None
             | Some kvs \<Rightarrow> fold setStringField kvs (Some zeroAnalysis))
          else None)"

text \<open>
  \<^verbatim>\<open>time.RFC3339\<close> in UTC for the instants of the years 1970 to 9999: the civil date of the
  day number, then the time of day.
\<close>

definition digitChar :: "int \<Rightarrow> char" where
  "digitChar d = char_of (48 + d)"

definition pad2 :: "int \<Rightarrow> string" where
  "pad2 n = [digitChar (n div 10 mod 10), digitChar (n mod 10)]"

definition pad4 :: "int \<Rightarrow> string" where
  "pad4 n = pad2 (n div 100) @ pad2 (n mod 100)"

definition civilDate :: "int \<Rightarrow> int \<times> int \<times> int" where
  "civilDate days =
     (let z = days + 719468;
          era = z div 146097;
          doe = z - era * 146097;
          yoe = (doe - doe div 1460 + doe div 36524 - doe div 146096) div 365;
          doy = doe - (365 * yoe + yoe div 4 - yoe div 100);
          mp = (5 * doy + 2) div 153;
          d = doy - (153 * mp + 2) div 5 + 1;
          m = (if mp < 10 then mp + 3 else mp - 9);
          y = yoe + era * 400 + (if m \<le> 2 then 1 else 0)
      in (y, m, d))"

definition sample_formatRFC3339 :: "time \<Rightarrow> string" where
  "sample_formatRFC3339 t =
     (let secs = t div Second;
          tod = secs mod 86400
      in case civilDate (secs div 86400) of
           (y, m, d) \<Rightarrow>
             pad4 y @ ''-'' @ pad2 m @ ''-'' @ pad2 d @ ''T'' @
             pad2 (tod div 3600) @ '':'' @ pad2 (tod div 60 mod 60) @ '':'' @ pad2 (tod mod 60) @
             ''Z'')"

definition lib0 :: golib where
  "lib0 = \<lparr> convInt64 = sample_conv, convInt = sample_conv,
            unmarshalAnalysis = sample_unmarshalAnalysis,
            formatRFC3339 = sample_formatRFC3339 \<rparr>"

text \<open>Three upstream rows: too short, complete, and complete but for its longitude.\<close>

definition row_short :: "jvalue list" where
  "row_short = [JString ''4b1805'', JNull]"

definition row_full :: "jvalue list" where
  "row_full =
     [JString ''899123'', JString ''EVA61   '', JString ''Taiwan'', JNumber 1700000000,
      JNumber 1700000001, JNumber 121.5, JNumber 25.25, JNumber 10972.8, JBool False,
      JNumber 230.5, JNumber 45, JNumber 0, JNull, JNumber 11277.6, JString ''1234'',
      JBool False, JNumber 0]"

definition row_nolon :: "jvalue list" where
  "row_nolon = row_full[5 := JNull]"

text \<open>A reply that is one JSON object whose only brace pair is not balanced by count.\<close>

definition sample_reply :: string where
  \<open>sample_reply = ''{"summary":"{"}''\<close>

text \<open>A reply with prose around an object that names a region and a timestamp of its own.\<close>

definition wrapped_reply :: string where
  \<open>wrapped_reply =
     ''Here you go: {"region":"mars","timestamp":"yesterday","summary":"quiet"} Done.''\<close>

text \<open>A reply with no JSON in it.\<close>

definition prose_reply :: string where
  "prose_reply = ''I cannot help {with} that''"

text \<open>Environments: OAuth2 credentials with a chat key, and the client id without its secret.\<close>

definition env_oauth :: env where
  "env_oauth =
     \<lparr> OPENSKY_CLIENT_ID = ''swarm-client'', OPENSKY_CLIENT_SECRET = ''s3cret'',
       OPENSKY_USERNAME = [], OPENSKY_PASSWORD = [], OPENAI_API_KEY = ''sk-sample'' \<rparr>"

definition env_nosecret :: env where
  "env_nosecret = env_oauth\<lparr>OPENSKY_CLIENT_SECRET := []\<rparr>"

text \<open>Cached values, and servers holding them.\<close>

definition snapshot_of :: "string \<Rightarrow> AirspaceData" where
  "snapshot_of regionName =
     \<lparr> ad_Timestamp = 1700000000, ad_Aircraft = [aircraftOfState lib0 row_full],
       ad_Region = regionName, ad_Count = 1 \<rparr>"

definition analysis_socal :: TacticalAnalysis where
  "analysis_socal =
     zeroAnalysis\<lparr>Timestamp := ''2023-11-14T22:13:20Z'', Region := ''socal'',
                  OverallThreatLevel := ''NOMINAL'', Summary := ''quiet''\<rparr>"

text \<open>
  One client, connection 7, subscribed to \<open>taiwan\<close>; a snapshot and an analysis cached
  for \<open>socal\<close>.
\<close>

definition server_sub :: server where
  "server_sub =
     (initial_server (1700000000 * Second))
       \<lparr>clients := [7 \<mapsto> ''taiwan''],
        airspaceCache := [''socal'' \<mapsto> snapshot_of ''socal''],
        analysisCache := [''socal'' \<mapsto> analysis_socal]\<rparr>"

text \<open>No client at all; a snapshot cached for \<open>taiwan\<close>.\<close>

definition server_nosubs :: server where
  "server_nosubs =
     (initial_server (1700000000 * Second))
       \<lparr>airspaceCache := [''taiwan'' \<mapsto> snapshot_of ''taiwan'']\<rparr>"

text \<open>A token cached with half an hour to go, and the same token about to expire.\<close>

definition server_token :: server where
  "server_token =
     server_nosubs\<lparr>oauthToken := ''tok-0'',
                   oauthTokenExpiry := 1700000000 * Second + 1800 * Second\<rparr>"

definition server_stale :: server where
  "server_stale =
     server_nosubs\<lparr>oauthToken := ''tok-0'',
                   oauthTokenExpiry := 1700000000 * Second + 59 * Second\<rparr>"

text \<open>What the outside answers.\<close>

definition token_granted :: token_world where
  "token_granted =
     \<lparr> tw_latency = 200000000,
       tw_reply = TokenResponse 200 [] (Some (''tok-1'', 1800)) \<rparr>"

definition token_refused :: token_world where
  "token_refused =
     \<lparr> tw_latency = 200000000,
       tw_reply = TokenResponse 400 ''invalid_client'' None \<rparr>"

definition fetch_answers :: "nat \<Rightarrow> fetch_world" where
  "fetch_answers code =
     \<lparr> fw_sleep_extra = 0, fw_token = token_granted, fw_latency = 150000000,
       fw_reply = SkyIssued (SkyResponse code [] True None) \<rparr>"

definition chat_answers :: "string \<Rightarrow> openai_world" where
  "chat_answers content =
     \<lparr> ow_latency = 2000000000,
       ow_reply = AIIssued (AIDecoded
         \<lparr> Choices = [\<lparr> Message = \<lparr> Role = ''assistant'', Content = content \<rparr> \<rparr>],
           Error = None \<rparr>) \<rparr>"

definition subscribe_to :: "string \<Rightarrow> ws_request option" where
  "subscribe_to regionName = Some \<lparr> req_Action = ''subscribe'', req_Region = regionName \<rparr>"

text \<open>Connection 7 subscribed to \<open>taiwan\<close>, with a snapshot cached for \<open>taiwan\<close>.\<close>

definition server_watch :: server where
  "server_watch = server_nosubs\<lparr>clients := [7 \<mapsto> ''taiwan'']\<rparr>"

definition region_taiwan :: Region where
  "region_taiwan =
     \<lparr> Name = ''Taiwan Strait'', MinLat = 21.5, MaxLat = 26.0, MinLon = 117.0, MaxLon = 123.0 \<rparr>"

text \<open>
  Two fetchers under OAuth2 credentials: goroutine 1 locks one second after goroutine 0
  has stamped, and sleeps out the rest of the three seconds.
\<close>

definition two_fetchers :: "action list" where
  "two_fetchers =
     [Lock 0, Check 0, Stamp 0, Unlock 0, Lock 1, Tick 1000000000, Check 1, Request 0,
      Tick 2000000000, Wake 1, Stamp 1, Unlock 1, Tick 5000000, Request 1]"

text \<open>The upstream answers a query with the three sample rows.\<close>

definition fetch_rows :: fetch_world where
  "fetch_rows =
     \<lparr> fw_sleep_extra = 0, fw_token = token_granted, fw_latency = 150000000,
       fw_reply = SkyIssued (SkyResponse 200 [] True (Some [row_short, row_full, row_nolon])) \<rparr>"

text \<open>
  Two calls of the fetcher under OAuth2 credentials with a token cached, the second one
  for another region and entered one second after the first was stamped.
\<close>

definition region_socal :: Region where
  "region_socal =
     \<lparr> Name = ''Southern California'',
       MinLat = 32.5, MaxLat = 34.5, MinLon = - 120.0, MaxLon = - 117.0 \<rparr>"

definition first_fetch :: server where
  "first_fetch = snd (fetchOpenSkyData lib0 env_oauth fetch_rows server_token region_taiwan)"

definition second_start :: server where
  "second_start = first_fetch\<lparr>clock := lastOpenSkyCall first_fetch + 1 * Second\<rparr>"

definition second_fetch :: server where
  "second_fetch = snd (fetchOpenSkyData lib0 env_oauth fetch_rows second_start region_socal)"

text \<open>The previous call was stamped four seconds ago.\<close>

definition server_recent :: server where
  "server_recent = server_nosubs\<lparr>lastOpenSkyCall := 1700000000 * Second - 4 * Second\<rparr>"

text \<open>Only the username is set: \<^verbatim>\<open>main\<close> reports anonymous mode for this environment.\<close>

definition env_useronly :: env where
  "env_useronly =
     \<lparr> OPENSKY_CLIENT_ID = [], OPENSKY_CLIENT_SECRET = [],
       OPENSKY_USERNAME = ''pilot'', OPENSKY_PASSWORD = [], OPENAI_API_KEY = [] \<rparr>"
section \<open>Parsing upstream rows into snapshots\<close>

lemma parseAircraftStates_loop_filter:
  "parseAircraftStates_loop L states acc =
     acc @ map (aircraftOfState L)
       (filter (\<lambda>state. \<not> length state < 17 \<and>
                  Latitude (aircraftOfState L state) \<noteq> None \<and>
                  Longitude (aircraftOfState L state) \<noteq> None) states)"
  by (induction states arbitrary: acc) (auto simp: Let_def)

lemma rateLimit_keeps:
  "clients (rateLimit E x st) = clients st"
  "airspaceCache (rateLimit E x st) = airspaceCache st"
  "analysisCache (rateLimit E x st) = analysisCache st"
  "sent (rateLimit E x st) = sent st"
  "requests (rateLimit E x st) = requests st"
  "oauthToken (rateLimit E x st) = oauthToken st"
  "oauthTokenExpiry (rateLimit E x st) = oauthTokenExpiry st"
  by (simp_all add: rateLimit_def time_Sleep_def Let_def split: option.splits)

lemma getOpenSkyToken_keeps:
  "clients (snd (getOpenSkyToken E w st)) = clients st"
  "airspaceCache (snd (getOpenSkyToken E w st)) = airspaceCache st"
  "analysisCache (snd (getOpenSkyToken E w st)) = analysisCache st"
  "sent (snd (getOpenSkyToken E w st)) = sent st"
  by (simp_all add: getOpenSkyToken_def Let_def split: token_reply.splits option.splits prod.splits)

lemma attachAuth_keeps:
  "clients (snd (attachAuth E w st)) = clients st"
  "airspaceCache (snd (attachAuth E w st)) = airspaceCache st"
  "analysisCache (snd (attachAuth E w st)) = analysisCache st"
  "sent (snd (attachAuth E w st)) = sent st"
  using getOpenSkyToken_keeps[of E w st]
  by (auto simp: attachAuth_def split: prod.splits sum.splits)

lemma fetchOpenSkyData_keeps:
  "clients (snd (fetchOpenSkyData L E w st region)) = clients st"
  "airspaceCache (snd (fetchOpenSkyData L E w st region)) = airspaceCache st"
  "analysisCache (snd (fetchOpenSkyData L E w st region)) = analysisCache st"
  "sent (snd (fetchOpenSkyData L E w st region)) = sent st"
  using attachAuth_keeps[of E "fw_token w" "rateLimit E (fw_sleep_extra w) st"]
  by (auto simp: fetchOpenSkyData_def Let_def rateLimit_keeps
      split: opensky_reply.splits opensky_result.splits prod.splits option.splits)

lemma fetchOpenSkyData_parsed:
  assumes "fst (fetchOpenSkyData L E w st region) = Inr aircraft"
  shows "\<exists>states. aircraft = parseAircraftStates L states"
  using assms
  by (auto simp: fetchOpenSkyData_def Let_def
      split: opensky_reply.splits opensky_result.splits prod.splits option.splits if_splits)

lemma fetchAndBroadcast_cache:
  "airspaceCache (fetchAndBroadcast L E w st regionName region) = airspaceCache st \<or>
   (\<exists>states t.
      airspaceCache (fetchAndBroadcast L E w st regionName region) =
        (airspaceCache st)(regionName \<mapsto>
           \<lparr> ad_Timestamp = t, ad_Aircraft = parseAircraftStates L states,
             ad_Region = regionName,
             ad_Count = int (length (parseAircraftStates L states)) \<rparr>))"
proof (cases "fetchOpenSkyData L E w st region")
  case (Pair r st1)
  then have keep: "airspaceCache st1 = airspaceCache st"
    using fetchOpenSkyData_keeps(2)[of L E w st region] by simp
  show ?thesis
  proof (cases r)
    case (Inl e)
    with Pair keep show ?thesis by (simp add: fetchAndBroadcast_def)
  next
    case (Inr aircraft)
    with Pair obtain states where "aircraft = parseAircraftStates L states"
      using fetchOpenSkyData_parsed[of L E w st region aircraft] by auto
    with Pair Inr keep show ?thesis
      by (auto simp: fetchAndBroadcast_def broadcastToClients_def Let_def)
  qed
qed

text \<open>
  C1. Rows with fewer than 17 fields are skipped and the batch goes on; every other row
  yields its parsed Aircraft record exactly when that record has both a latitude and a
  longitude, in the order of the rows. So every record of the result has both
  coordinates, and when every cached snapshot holds only such records before a poll
  cycle, every cached snapshot does after it.
\<close>

theorem parseAircraftStates_keeps_located_rows:
  "parseAircraftStates L states =
     map (aircraftOfState L)
       (filter (\<lambda>state. \<not> length state < 17 \<and>
                  Latitude (aircraftOfState L state) \<noteq> None \<and>
                  Longitude (aircraftOfState L state) \<noteq> None) states) \<and>
   (\<forall>ac \<in> set (parseAircraftStates L states). Latitude ac \<noteq> None \<and> Longitude ac \<noteq> None) \<and>
   ((\<forall>k data. airspaceCache st k = Some data \<longrightarrow>
       (\<forall>ac \<in> set (ad_Aircraft data). Latitude ac \<noteq> None \<and> Longitude ac \<noteq> None)) \<longrightarrow>
    (\<forall>k data. airspaceCache (fetchAndBroadcast L E w st regionName region) k = Some data \<longrightarrow>
       (\<forall>ac \<in> set (ad_Aircraft data). Latitude ac \<noteq> None \<and> Longitude ac \<noteq> None)))"
proof -
  have parsed: "parseAircraftStates L rows =
     map (aircraftOfState L)
       (filter (\<lambda>state. \<not> length state < 17 \<and>
                  Latitude (aircraftOfState L state) \<noteq> None \<and>
                  Longitude (aircraftOfState L state) \<noteq> None) rows)" for rows
    by (simp add: parseAircraftStates_def parseAircraftStates_loop_filter)
  have located: "\<forall>ac \<in> set (parseAircraftStates L rows).
      Latitude ac \<noteq> None \<and> Longitude ac \<noteq> None" for rows
    unfolding parsed by auto
  have "\<forall>ac \<in> set (ad_Aircraft data). Latitude ac \<noteq> None \<and> Longitude ac \<noteq> None"
    if inv: "\<forall>k data. airspaceCache st k = Some data \<longrightarrow>
       (\<forall>ac \<in> set (ad_Aircraft data). Latitude ac \<noteq> None \<and> Longitude ac \<noteq> None)"
      and d: "airspaceCache (fetchAndBroadcast L E w st regionName region) k = Some data"
    for k data
    using fetchAndBroadcast_cache[of L E w st regionName region]
  proof
    assume "airspaceCache (fetchAndBroadcast L E w st regionName region) = airspaceCache st"
    with inv d show ?thesis by simp
  next
    assume "\<exists>states t.
      airspaceCache (fetchAndBroadcast L E w st regionName region) =
        (airspaceCache st)(regionName \<mapsto>
           \<lparr> ad_Timestamp = t, ad_Aircraft = parseAircraftStates L states,
             ad_Region = regionName,
             ad_Count = int (length (parseAircraftStates L states)) \<rparr>)"
    then obtain rows t where
      "airspaceCache (fetchAndBroadcast L E w st regionName region) =
        (airspaceCache st)(regionName \<mapsto>
           \<lparr> ad_Timestamp = t, ad_Aircraft = parseAircraftStates L rows,
             ad_Region = regionName,
             ad_Count = int (length (parseAircraftStates L rows)) \<rparr>)"
      by blast
    with inv d located[of rows] show ?thesis
      by (cases "k = regionName") auto
  qed
  with parsed located show ?thesis by blast
qed

theorem parseAircraftStates_keeps_located_rows_witness:
  "parseAircraftStates lib0 [row_short, row_full, row_nolon] = [aircraftOfState lib0 row_full] \<and>
   Latitude (aircraftOfState lib0 row_full) \<noteq> None \<and>
   Longitude (aircraftOfState lib0 row_full) \<noteq> None \<and>
   airspaceCache server_watch = [''taiwan'' \<mapsto> snapshot_of ''taiwan''] \<and>
   map_option ad_Aircraft
     (airspaceCache (fetchAndBroadcast lib0 env_oauth fetch_rows server_watch ''taiwan''
        region_taiwan) ''taiwan'') = Some [aircraftOfState lib0 row_full] \<and>
   map_option ad_Count
     (airspaceCache (fetchAndBroadcast lib0 env_oauth fetch_rows server_watch ''taiwan''
        region_taiwan) ''taiwan'') = Some 1"
proof -
  let ?rows = "[row_short, row_full, row_nolon]"
  let ?st' = "fetchAndBroadcast lib0 env_oauth fetch_rows server_watch ''taiwan'' region_taiwan"
  note inst = parseAircraftStates_keeps_located_rows[of lib0 ?rows server_watch env_oauth
      fetch_rows "''taiwan''" region_taiwan]
  have run: "parseAircraftStates lib0 ?rows = [aircraftOfState lib0 row_full]"
    by (simp add: parseAircraftStates_def row_short_def row_full_def row_nolon_def
        aircraftOfState_def del: not_None_eq)
  have located: "Latitude (aircraftOfState lib0 row_full) \<noteq> None \<and>
      Longitude (aircraftOfState lib0 row_full) \<noteq> None"
    using inst run by simp
  have before: "airspaceCache server_watch = [''taiwan'' \<mapsto> snapshot_of ''taiwan'']"
    by (simp add: server_watch_def server_nosubs_def initial_server_def)
  have fetched: "fst (fetchOpenSkyData lib0 env_oauth fetch_rows server_watch region_taiwan) =
      Inr [aircraftOfState lib0 row_full]"
    by (simp add: fetchOpenSkyData_def fetch_rows_def run split: prod.splits)
  have after: "map_option ad_Aircraft (airspaceCache ?st' ''taiwan'') =
        Some [aircraftOfState lib0 row_full] \<and>
      map_option ad_Count (airspaceCache ?st' ''taiwan'') = Some 1"
    using fetched
    by (cases "fetchOpenSkyData lib0 env_oauth fetch_rows server_watch region_taiwan")
       (simp add: fetchAndBroadcast_def broadcastToClients_def Let_def)
  from run located before after show ?thesis by simp
qed

section \<open>Extracting and decoding the reply\<close>

lemma findJSONStart_loop_eq:
  "findJSONStart_loop i s =
     (if CHR ''{'' \<in> set s then int (i + length (takeWhile (\<lambda>c. c \<noteq> CHR ''{'') s)) else - 1)"
  by (induction s arbitrary: i) auto

lemma find_map_Suc: "List.find P (map f xs) = map_option f (List.find (\<lambda>x. P (f x)) xs)"
  by (induction xs) auto

lemma braceDepth_Cons:
  "braceDepth (c # s) = (if c = CHR ''{'' then 1 else if c = CHR ''}'' then - 1 else 0) + braceDepth s"
  by (simp add: braceDepth_def)

lemma closesFrom_Cons_0: "closesFrom d (c # s) 0 \<longleftrightarrow> c = CHR ''}'' \<and> d - 1 = 0"
  by (auto simp: closesFrom_def braceDepth_def)

lemma closesFrom_Cons_Suc:
  "closesFrom d (c # s) (Suc j) =
     closesFrom (if c = CHR ''{'' then d + 1 else if c = CHR ''}'' then d - 1 else d) s j"
  by (auto simp: closesFrom_def braceDepth_Cons)

lemma findJSONEnd_loop_find:
  "findJSONEnd_loop d i s =
     (case List.find (closesFrom d s) [0..<length s] of
        Some j \<Rightarrow> int (i + j)
      | None \<Rightarrow> - 1)"
proof (induction s arbitrary: d i)
  case Nil
  then show ?case by simp
next
  case (Cons c s)
  have upt: "[0..<length (c # s)] = 0 # map Suc [0..<length s]"
    by (simp add: upt_conv_Cons map_Suc_upt del: upt_Suc)
  show ?case
    unfolding upt
    by (simp add: Cons.IH find_map_Suc closesFrom_Cons_0 closesFrom_Cons_Suc split: option.splits del: upt_Suc)
qed

lemma closesAt_closesFrom: "j < length s \<Longrightarrow> closesAt s j = closesFrom 0 s j"
  by (simp add: closesAt_def closesFrom_def)

lemma find_cong_set: "(\<And>x. x \<in> set xs \<Longrightarrow> P x = Q x) \<Longrightarrow> List.find P xs = List.find Q xs"
  by (induction xs) auto

lemma findJSONEnd_find:
  "findJSONEnd s = (case List.find (closesAt s) [0..<length s] of Some j \<Rightarrow> int j | None \<Rightarrow> - 1)"
proof -
  have "List.find (closesFrom 0 s) [0..<length s] = List.find (closesAt s) [0..<length s]"
    by (rule find_cong_set) (simp add: closesAt_closesFrom)
  then show ?thesis
    unfolding findJSONEnd_def findJSONEnd_loop_find by (simp split: option.splits)
qed

lemma findJSONStart_eq:
  "findJSONStart s =
     (if CHR ''{'' \<in> set s then int (length (takeWhile (\<lambda>c. c \<noteq> CHR ''{'') s)) else - 1)"
  by (simp add: findJSONStart_def findJSONStart_loop_eq)

lemma find_upt_less: "List.find P [0..<n] = Some j \<Longrightarrow> j < n"
  by (auto simp: find_Some_iff)

lemma jsonStartOf_bounds:
  "0 \<le> jsonStartOf content \<and> jsonStartOf content \<le> int (length content)"
  by (simp add: jsonStartOf_def findJSONStart_eq Let_def length_takeWhile_le)

lemma drop_jsonStartOf: "drop (nat (jsonStartOf content)) content = bodyOf content"
proof (cases "CHR ''{'' \<in> set content")
  case True
  then have "dropWhile (\<lambda>c. c \<noteq> CHR ''{'') content \<noteq> []" by (simp add: dropWhile_eq_Nil_conv)
  with True show ?thesis
    by (simp add: jsonStartOf_def findJSONStart_eq bodyOf_def Let_def dropWhile_eq_drop)
next
  case False
  then have "dropWhile (\<lambda>c. c \<noteq> CHR ''{'') content = []" by (auto simp: dropWhile_eq_Nil_conv)
  with False show ?thesis
    by (simp add: jsonStartOf_def findJSONStart_eq bodyOf_def Let_def)
qed

lemma length_bodyOf: "int (length (bodyOf content)) = int (length content) - jsonStartOf content"
  using jsonStartOf_bounds[of content] by (simp add: drop_jsonStartOf[symmetric] of_nat_diff nat_le_iff)

lemma slice_to_end:
  "0 \<le> lo \<Longrightarrow> lo \<le> int (length s) \<Longrightarrow> slice s lo (int (length s)) = Some (drop (nat lo) s)"
  by (simp add: slice_def)

lemma jsonEndOf_eq:
  "jsonEndOf content =
     Some (case List.find (closesAt (bodyOf content)) [0..<length (bodyOf content)] of
             Some j \<Rightarrow> jsonStartOf content + int j + 1
           | None \<Rightarrow> int (length content))"
  using jsonStartOf_bounds[of content]
  by (simp add: jsonEndOf_def slice_to_end drop_jsonStartOf findJSONEnd_find Let_def
      split: option.splits)

lemma jsonContentOf_spec: "jsonContentOf content = Some (spec_jsonContent content)"
proof (cases "List.find (closesAt (bodyOf content)) [0..<length (bodyOf content)]")
  case None
  then show ?thesis
    using jsonStartOf_bounds[of content]
    by (simp add: jsonContentOf_def jsonEndOf_eq slice_to_end drop_jsonStartOf
        spec_jsonContent_def)
next
  case (Some j)
  then have "j < length (bodyOf content)" by (rule find_upt_less)
  then have j: "jsonStartOf content + int j + 1 \<le> int (length content)"
    using length_bodyOf[of content] by simp
  have "slice content (jsonStartOf content) (jsonStartOf content + int j + 1) =
          Some (take (Suc j) (drop (nat (jsonStartOf content)) content))"
    using jsonStartOf_bounds[of content] j by (simp add: slice_def nat_add_distrib)
  with Some show ?thesis
    by (simp add: jsonContentOf_def jsonEndOf_eq drop_jsonStartOf
        spec_jsonContent_def)
qed


text \<open>
  C8, as the code has it. The engine decodes the reply from its first opening brace (from
  its start when it has none) through the first closing brace at which the brace depth
  returns to zero (through its end when there is none). When that text decodes, the
  decoded analysis is returned with the server's timestamp and the region; when it does
  not, a degraded record with threat level UNKNOWN, score 0 and the whole raw reply. The
  slice expressions never go out of bounds.
\<close>

theorem analysisOfContent_decodes_extracted_text:
  "jsonContentOf content = Some (spec_jsonContent content) \<and>
   analysisOfContent L now region content =
     Inr (case unmarshalAnalysis L (spec_jsonContent content) of
            Some analysis \<Rightarrow> analysis\<lparr>Timestamp := formatRFC3339 L now, Region := region\<rparr>
          | None \<Rightarrow>
              \<lparr> Timestamp = formatRFC3339 L now, Region = region,
                OverallThreatLevel = ''UNKNOWN'', ThreatScore = 0,
                Summary = ''Analysis parsing failed - raw response available'',
                KeyObservations = None, AircraftOfInterest = None,
                TacticalRecommendations = None, PatternAnalysis = None,
                NextUpdatePriority = [], Raw = content \<rparr>)"
  by (simp add: analysisOfContent_def jsonContentOf_spec degradedAnalysis_def
      split: option.splits)

text \<open>
  The claim as the specification words it fails on a reply that is a JSON object with an
  opening brace inside a string: no closing brace balances it, and yet the reply is
  decoded and no degraded record is returned.
\<close>

theorem unbalanced_reply_is_decoded:
  "findJSONStart sample_reply = 0 \<and>
   findJSONEnd sample_reply = - 1 \<and>
   analysisOfContent lib0 (1700000000 * Second) ''taiwan'' sample_reply =
     Inr (zeroAnalysis\<lparr>Timestamp := ''2023-11-14T22:13:20Z'', Region := ''taiwan'',
                       Summary := ''{''\<rparr>) \<and>
   OverallThreatLevel (zeroAnalysis\<lparr>Timestamp := ''2023-11-14T22:13:20Z'', Region := ''taiwan'',
                       Summary := ''{''\<rparr>) \<noteq> ''UNKNOWN''"
  by code_simp

section \<open>Subscriptions\<close>

text \<open>
  C2, as the code has it. A message that decodes with the action \<open>subscribe\<close> sets the
  connection's region to the region it names, whether or not that region is configured;
  any other message leaves the registry as it is.
\<close>

theorem subscribe_sets_named_region:
  "clients (handleWebSocket_message c decoded st) =
     (case decoded of
        None \<Rightarrow> clients st
      | Some request \<Rightarrow>
          if req_Action request = ''subscribe'' then (clients st)(c \<mapsto> req_Region request)
          else clients st)"
  by (simp add: handleWebSocket_message_def writeJSON_def Let_def split: option.splits)

text \<open>
  The claim as the specification words it fails: a connection subscribed to \<open>taiwan\<close>
  that asks for the region \<open>mars\<close>, which is not configured, is moved to \<open>mars\<close>.
\<close>

theorem subscribe_unknown_region_switches:
  "regions ''mars'' = None \<and>
   clients server_sub 7 = Some ''taiwan'' \<and>
   clients (handleWebSocket_message 7 (subscribe_to ''mars'') server_sub) 7 = Some ''mars''"
  by (simp add: regions_def server_sub_def initial_server_def handleWebSocket_message_def
      subscribe_to_def writeJSON_def Let_def)

text \<open>
  C3, as the code has it. On connect and on every message that decodes with the action
  \<open>subscribe\<close>, the handler writes to that connection the snapshot cached for the
  (new) region, if there is one, and nothing else: it never writes a cached analysis.
\<close>

theorem handler_sends_cached_snapshot_only:
  "sent (handleWebSocket_connect c regionQuery st) =
     (sent st)(c := sent st c @
        cachedSnapshot st (if regionQuery = [] then ''taiwan'' else regionQuery)) \<and>
   sent (handleWebSocket_message c decoded st) =
     (case decoded of
        None \<Rightarrow> sent st
      | Some request \<Rightarrow>
          if req_Action request = ''subscribe''
          then (sent st)(c := sent st c @ cachedSnapshot st (req_Region request))
          else sent st)"
  by (auto simp: handleWebSocket_connect_def handleWebSocket_message_def writeJSON_def Let_def
      cachedSnapshot_def split: option.splits)

text \<open>
  The claim as the specification words it fails: with a snapshot and an analysis both
  cached for \<open>socal\<close>, a subscribe message for \<open>socal\<close> and a fresh connection to
  \<open>socal\<close> are each sent the snapshot alone.
\<close>

theorem subscribe_sends_no_analysis:
  "regions ''socal'' \<noteq> None \<and>
   analysisCache server_sub ''socal'' = Some analysis_socal \<and>
   sent server_sub 7 = [] \<and>
   sent (handleWebSocket_message 7 (subscribe_to ''socal'') server_sub) 7 =
     [SnapshotMsg (snapshot_of ''socal'')] \<and>
   sent (handleWebSocket_connect 8 ''socal'' server_sub) 8 =
     [SnapshotMsg (snapshot_of ''socal'')]"
  by (simp add: regions_def server_sub_def initial_server_def handleWebSocket_message_def
      handleWebSocket_connect_def subscribe_to_def writeJSON_def Let_def)

section \<open>Fetching\<close>

lemma fetchOpenSkyData_429:
  assumes "fw_reply w = SkyIssued (SkyResponse 429 body readOK decoded)"
  shows "fst (fetchOpenSkyData L E w st region) = Inl RateLimited"
  using assms by (simp add: fetchOpenSkyData_def Let_def split: prod.splits)


text \<open>
  C4. In a poll cycle whose upstream response has status 429 the fetch ends in its
  rate-limited error, which \<^verbatim>\<open>fetchAndBroadcast\<close> absorbs: the snapshot cache is what it was
  before the cycle, nothing is written to any connection, and the cycle has no result
  through which an error could leave.
\<close>

theorem rate_limited_cycle_keeps_snapshot:
  assumes "fw_reply w = SkyIssued (SkyResponse 429 body readOK decoded)"
  shows "fst (fetchOpenSkyData L E w st region) = Inl RateLimited \<and>
         airspaceCache (fetchAndBroadcast L E w st regionName region) = airspaceCache st \<and>
         sent (fetchAndBroadcast L E w st regionName region) = sent st \<and>
         clients (fetchAndBroadcast L E w st regionName region) = clients st \<and>
         analysisCache (fetchAndBroadcast L E w st regionName region) = analysisCache st"
proof -
  have err: "fst (fetchOpenSkyData L E w st region) = Inl RateLimited"
    using assms by (rule fetchOpenSkyData_429)
  then have "fetchAndBroadcast L E w st regionName region = snd (fetchOpenSkyData L E w st region)"
    by (cases "fetchOpenSkyData L E w st region") (simp add: fetchAndBroadcast_def)
  with err show ?thesis by (simp add: fetchOpenSkyData_keeps)
qed

theorem rate_limited_cycle_keeps_snapshot_witness:
  "fw_reply (fetch_answers 429) = SkyIssued (SkyResponse 429 [] True None) \<and>
   clients server_watch 7 = Some ''taiwan'' \<and>
   airspaceCache (fetchAndBroadcast lib0 env_oauth (fetch_answers 429) server_watch
     ''taiwan'' region_taiwan) ''taiwan'' = Some (snapshot_of ''taiwan'') \<and>
   sent (fetchAndBroadcast lib0 env_oauth (fetch_answers 429) server_watch
     ''taiwan'' region_taiwan) 7 = []"
proof -
  have h: "fw_reply (fetch_answers 429) = SkyIssued (SkyResponse 429 [] True None)"
    by (simp add: fetch_answers_def)
  show ?thesis
    using h rate_limited_cycle_keeps_snapshot[OF h, of lib0 env_oauth server_watch region_taiwan
        "''taiwan''"]
    by (simp add: server_watch_def server_nosubs_def initial_server_def)
qed

text \<open>
  C5, as the code has it. Without both the client id and the client secret
  \<^verbatim>\<open>getOpenSkyToken\<close> returns its no-credentials error and neither looks at the cache nor
  exchanges anything, and the caller, which asks for a token whenever the client id is
  set, sends its request without an authorization header. With both, it returns the cached token without an exchange exactly
  when a token is cached and more than 60 seconds remain before its expiry; otherwise it
  performs one exchange, stores and returns the token granted with the expiry computed
  from the reported lifetime, and when nothing is granted it returns an error, keeps
  the cache as it was, and the caller sends its request without an authorization header.
\<close>

theorem getOpenSkyToken_cached_or_exchanged:
  "(OPENSKY_CLIENT_ID E = [] \<or> OPENSKY_CLIENT_SECRET E = [] \<longrightarrow>
      getOpenSkyToken E w st = (Inl NoOAuth2Credentials, st) \<and>
      (OPENSKY_CLIENT_ID E \<noteq> [] \<longrightarrow> attachAuth E w st = (NoAuth, st))) \<and>
   (OPENSKY_CLIENT_ID E \<noteq> [] \<and> OPENSKY_CLIENT_SECRET E \<noteq> [] \<longrightarrow>
      (requests (snd (getOpenSkyToken E w st)) = requests st \<longleftrightarrow> tokenFresh st) \<and>
      (tokenFresh st \<longrightarrow> getOpenSkyToken E w st = (Inr (oauthToken st), st)) \<and>
      (\<not> tokenFresh st \<longrightarrow>
         requests (snd (getOpenSkyToken E w st)) =
           requests st @ [TokenExchange (OPENSKY_CLIENT_ID E) (OPENSKY_CLIENT_SECRET E)] \<and>
         (case tokenGranted (tw_reply w) of
            Some (accessToken, expiresIn) \<Rightarrow>
              fst (getOpenSkyToken E w st) = Inr accessToken \<and>
              oauthToken (snd (getOpenSkyToken E w st)) = accessToken \<and>
              oauthTokenExpiry (snd (getOpenSkyToken E w st)) =
                clock st + int (tw_latency w) + wrap64 (expiresIn * Second)
          | None \<Rightarrow>
              isl (fst (getOpenSkyToken E w st)) \<and>
              oauthToken (snd (getOpenSkyToken E w st)) = oauthToken st \<and>
              fst (attachAuth E w st) = NoAuth)))"
  by (cases "tw_reply w")
     (auto simp: getOpenSkyToken_def attachAuth_def tokenFresh_def Let_def
        split: option.splits prod.splits)

theorem getOpenSkyToken_cached_or_exchanged_witness:
  "tokenFresh server_token \<and>
   getOpenSkyToken env_oauth token_granted server_token = (Inr ''tok-0'', server_token) \<and>
   \<not> tokenFresh server_stale \<and>
   fst (getOpenSkyToken env_oauth token_granted server_stale) = Inr ''tok-1'' \<and>
   requests (snd (getOpenSkyToken env_oauth token_granted server_stale)) =
     [TokenExchange ''swarm-client'' ''s3cret''] \<and>
   isl (fst (getOpenSkyToken env_oauth token_refused server_stale)) \<and>
   fst (attachAuth env_oauth token_refused server_stale) = NoAuth \<and>
   OPENSKY_CLIENT_SECRET env_nosecret = [] \<and>
   fst (attachAuth env_nosecret token_granted server_token) = NoAuth"
proof -
  have fresh: "tokenFresh server_token"
    by (simp add: tokenFresh_def server_token_def server_nosubs_def initial_server_def Second_def)
  have stale: "\<not> tokenFresh server_stale"
    by (simp add: tokenFresh_def server_stale_def server_nosubs_def initial_server_def Second_def)
  have cred: "OPENSKY_CLIENT_ID env_oauth \<noteq> [] \<and> OPENSKY_CLIENT_SECRET env_oauth \<noteq> []"
    by (simp add: env_oauth_def)
  have cached: "getOpenSkyToken env_oauth token_granted server_token = (Inr ''tok-0'', server_token)"
    using getOpenSkyToken_cached_or_exchanged[of env_oauth token_granted server_token] fresh cred
    by (simp add: server_token_def)
  have granted: "fst (getOpenSkyToken env_oauth token_granted server_stale) = Inr ''tok-1'' \<and>
      requests (snd (getOpenSkyToken env_oauth token_granted server_stale)) =
        [TokenExchange ''swarm-client'' ''s3cret'']"
    using getOpenSkyToken_cached_or_exchanged[of env_oauth token_granted server_stale] stale cred
    by (simp add: token_granted_def env_oauth_def server_stale_def server_nosubs_def
        initial_server_def)
  have refused: "isl (fst (getOpenSkyToken env_oauth token_refused server_stale)) \<and>
      fst (attachAuth env_oauth token_refused server_stale) = NoAuth"
    using getOpenSkyToken_cached_or_exchanged[of env_oauth token_refused server_stale] stale cred
    by (simp add: token_refused_def)
  have nosecret: "OPENSKY_CLIENT_ID env_nosecret \<noteq> [] \<and> OPENSKY_CLIENT_SECRET env_nosecret = []"
    by (simp add: env_nosecret_def env_oauth_def)
  have guarded: "fst (attachAuth env_nosecret token_granted server_token) = NoAuth"
    using getOpenSkyToken_cached_or_exchanged[of env_nosecret token_granted server_token] nosecret
    by simp
  from fresh stale cached granted refused nosecret guarded show ?thesis by simp
qed

text \<open>
  The claim as the specification words it fails when the client id is set and the
  client secret is not: no token is cached, and yet no exchange is performed.
\<close>

theorem getOpenSkyToken_without_credentials_counterexample:
  "oauthToken server_nosubs = [] \<and>
   OPENSKY_CLIENT_ID env_nosecret \<noteq> [] \<and>
   fst (getOpenSkyToken env_nosecret token_granted server_nosubs) = Inl NoOAuth2Credentials \<and>
   requests (snd (getOpenSkyToken env_nosecret token_granted server_nosubs)) = []"
  by (simp add: getOpenSkyToken_def env_nosecret_def env_oauth_def server_nosubs_def initial_server_def)


lemma fetchOpenSkyData_401:
  assumes "fw_reply w = SkyIssued (SkyResponse 401 body readOK decoded)"
  shows "fst (fetchOpenSkyData L E w st region) = Inl AuthFailed"
    and "oauthToken (snd (fetchOpenSkyData L E w st region)) = []"
  using assms by (simp_all add: fetchOpenSkyData_def Let_def split: prod.splits)

lemma getOpenSkyToken_no_cached_token:
  assumes "oauthToken st = []"
  shows "(OPENSKY_CLIENT_ID E \<noteq> [] \<and> OPENSKY_CLIENT_SECRET E \<noteq> [] \<longrightarrow>
            requests (snd (getOpenSkyToken E tw st)) =
              requests st @ [TokenExchange (OPENSKY_CLIENT_ID E) (OPENSKY_CLIENT_SECRET E)]) \<and>
         (\<forall>token. fst (getOpenSkyToken E tw st) = Inr token \<longrightarrow>
            requests (snd (getOpenSkyToken E tw st)) =
              requests st @ [TokenExchange (OPENSKY_CLIENT_ID E) (OPENSKY_CLIENT_SECRET E)] \<and>
            (\<exists>expiresIn. tokenGranted (tw_reply tw) = Some (token, expiresIn)))"
  using assms
  by (cases "tw_reply tw")
     (auto simp: getOpenSkyToken_def Let_def split: option.splits prod.splits)

lemma attachAuth_Bearer:
  assumes "fst (attachAuth E tw st) = Bearer token"
  shows "OPENSKY_CLIENT_ID E \<noteq> [] \<and> OPENSKY_CLIENT_SECRET E \<noteq> []"
  using assms
  by (auto simp: attachAuth_def getOpenSkyToken_def Let_def
      split: if_splits prod.splits sum.splits token_reply.splits option.splits)

lemma fetchOpenSkyData_401_request:
  assumes "fw_reply w = SkyIssued (SkyResponse 401 body readOK decoded)"
  shows "last (requests (snd (fetchOpenSkyData L E w st region))) =
           StatesQuery region (fst (attachAuth E (fw_token w) (rateLimit E (fw_sleep_extra w) st)))"
  using assms by (simp add: fetchOpenSkyData_def Let_def split: prod.splits)


text \<open>
  C6. A fetch whose upstream response has status 401 ends in its authentication error
  and leaves the cached token empty. As long as the token stays empty, the next
  \<^verbatim>\<open>getOpenSkyToken\<close> cannot answer from the cache: any token it returns is the one a token
  exchange of its own has just granted, and it does perform that exchange whenever the
  rejected request carried a token (which takes both OAuth2 credentials).
\<close>

theorem unauthorized_clears_cached_token:
  assumes "fw_reply w = SkyIssued (SkyResponse 401 body readOK decoded)"
  shows "fst (fetchOpenSkyData L E w st region) = Inl AuthFailed \<and>
         oauthToken (snd (fetchOpenSkyData L E w st region)) = [] \<and>
         (\<forall>st' tw.
            oauthToken st' = oauthToken (snd (fetchOpenSkyData L E w st region)) \<longrightarrow>
            (\<forall>token. fst (getOpenSkyToken E tw st') = Inr token \<longrightarrow>
               requests (snd (getOpenSkyToken E tw st')) =
                 requests st' @ [TokenExchange (OPENSKY_CLIENT_ID E) (OPENSKY_CLIENT_SECRET E)] \<and>
               (\<exists>expiresIn. tokenGranted (tw_reply tw) = Some (token, expiresIn))) \<and>
            ((\<exists>rejected. last (requests (snd (fetchOpenSkyData L E w st region))) =
                 StatesQuery region (Bearer rejected)) \<or>
             (OPENSKY_CLIENT_ID E \<noteq> [] \<and> OPENSKY_CLIENT_SECRET E \<noteq> []) \<longrightarrow>
               requests (snd (getOpenSkyToken E tw st')) =
                 requests st' @ [TokenExchange (OPENSKY_CLIENT_ID E) (OPENSKY_CLIENT_SECRET E)]))"
proof -
  have cred: "OPENSKY_CLIENT_ID E \<noteq> [] \<and> OPENSKY_CLIENT_SECRET E \<noteq> []"
    if "last (requests (snd (fetchOpenSkyData L E w st region))) =
          StatesQuery region (Bearer rejected)" for rejected
    using that attachAuth_Bearer[of E "fw_token w" "rateLimit E (fw_sleep_extra w) st" rejected]
    by (simp add: fetchOpenSkyData_401_request[OF assms])
  show ?thesis
    using fetchOpenSkyData_401[OF assms, of L E st region] getOpenSkyToken_no_cached_token cred
    by (simp only:) blast
qed

theorem unauthorized_clears_cached_token_witness:
  "fw_reply (fetch_answers 401) = SkyIssued (SkyResponse 401 [] True None) \<and>
   oauthToken server_token = ''tok-0'' \<and>
   fst (fetchOpenSkyData lib0 env_oauth (fetch_answers 401) server_token region_taiwan) =
     Inl AuthFailed \<and>
   oauthToken (snd (fetchOpenSkyData lib0 env_oauth (fetch_answers 401) server_token
     region_taiwan)) = [] \<and>
   requests (snd (fetchOpenSkyData lib0 env_oauth (fetch_answers 401) server_token
     region_taiwan)) = [StatesQuery region_taiwan (Bearer ''tok-0'')] \<and>
   fst (getOpenSkyToken env_oauth token_granted
     (snd (fetchOpenSkyData lib0 env_oauth (fetch_answers 401) server_token region_taiwan))) =
     Inr ''tok-1'' \<and>
   requests (snd (getOpenSkyToken env_oauth token_granted
     (snd (fetchOpenSkyData lib0 env_oauth (fetch_answers 401) server_token region_taiwan)))) =
     [StatesQuery region_taiwan (Bearer ''tok-0''), TokenExchange ''swarm-client'' ''s3cret'']"
proof -
  let ?st' = "snd (fetchOpenSkyData lib0 env_oauth (fetch_answers 401) server_token region_taiwan)"
  have h: "fw_reply (fetch_answers 401) = SkyIssued (SkyResponse 401 [] True None)"
    by (simp add: fetch_answers_def)
  note inst = unauthorized_clears_cached_token[OF h, of lib0 env_oauth server_token region_taiwan]
  have sent_token: "requests ?st' = [StatesQuery region_taiwan (Bearer ''tok-0'')]"
    by (simp add: fetchOpenSkyData_def attachAuth_def getOpenSkyToken_def rateLimit_def
        limiterWait_def time_Sub_def minGap_def hasAuth_def fetch_answers_def env_oauth_def
        server_token_def server_nosubs_def initial_server_def zeroTime_def Second_def
        maxDuration_def minDuration_def Let_def)
  have nxt: "fst (getOpenSkyToken env_oauth token_granted ?st') = Inr ''tok-1''"
    using inst by (simp add: getOpenSkyToken_def token_granted_def env_oauth_def Let_def)
  have exch: "requests (snd (getOpenSkyToken env_oauth token_granted ?st')) =
      requests ?st' @ [TokenExchange ''swarm-client'' ''s3cret'']"
    using inst by (simp add: env_oauth_def)
  from h inst sent_token nxt exch show ?thesis by (simp add: server_token_def)
qed

section \<open>Analysis: when the service is called, and what is cached\<close>

lemma callOpenAIAnalysis_requests:
  "requests (snd (callOpenAIAnalysis L w st apiKey region aircraft)) =
     (case ow_reply w of
        AIIssued result \<Rightarrow> requests st @ [ChatCompletion apiKey region aircraft]
      | _ \<Rightarrow> requests st)"
  by (simp add: callOpenAIAnalysis_def Let_def
      split: openai_reply.splits openai_result.splits option.splits list.splits)

lemma performAnalysis_requests:
  "requests (performAnalysis L E w st regionName) =
     (if OPENAI_API_KEY E \<noteq> [] \<and> hasAircraft st regionName \<and>
         (\<exists>result. ow_reply w = AIIssued result)
      then requests st @
             [ChatCompletion (OPENAI_API_KEY E) regionName
                (ad_Aircraft (the (airspaceCache st regionName)))]
      else requests st)"
  using callOpenAIAnalysis_requests[of L w st "OPENAI_API_KEY E" regionName
      "ad_Aircraft (the (airspaceCache st regionName))"]
  by (cases "callOpenAIAnalysis L w st (OPENAI_API_KEY E) regionName
        (ad_Aircraft (the (airspaceCache st regionName)))")
     (auto simp: performAnalysis_def hasAircraft_def broadcastAnalysisToClients_def
        split: option.splits sum.splits openai_reply.splits)

text \<open>
  C9, as the code has it. A tick of the periodic path calls the reasoning service for its
  region exactly when the API key is set, the region's cached snapshot holds at least
  one aircraft and the request can be built; who is subscribed makes no difference.
\<close>

theorem performAnalysis_calls_regardless_of_subscribers:
  "requests (performAnalysis L E w st regionName) =
     (if OPENAI_API_KEY E \<noteq> [] \<and> hasAircraft st regionName \<and>
         (\<exists>result. ow_reply w = AIIssued result)
      then requests st @
             [ChatCompletion (OPENAI_API_KEY E) regionName
                (ad_Aircraft (the (airspaceCache st regionName)))]
      else requests st) \<and>
   requests (performAnalysis L E w (st\<lparr>clients := subscribers\<rparr>) regionName) =
     requests (performAnalysis L E w st regionName)"
  by (simp add: performAnalysis_requests hasAircraft_def)

text \<open>
  The claim as the specification words it fails: with no client connected at all, a
  tick for \<open>taiwan\<close> calls the service.
\<close>

theorem performAnalysis_without_subscribers_calls:
  "clients server_nosubs = Map.empty \<and>
   requests server_nosubs = [] \<and>
   requests (performAnalysis lib0 env_oauth (chat_answers prose_reply) server_nosubs ''taiwan'') =
     [ChatCompletion ''sk-sample'' ''taiwan'' [aircraftOfState lib0 row_full]]"
  by (simp add: performAnalysis_requests hasAircraft_def server_nosubs_def
      initial_server_def env_oauth_def chat_answers_def snapshot_of_def)

lemma analysisOfContent_stamped:
  "analysisOfContent L now region content = Inr a \<Longrightarrow>
     Region a = region \<and> Timestamp a = formatRFC3339 L now"
  by (auto simp: analysisOfContent_def degradedAnalysis_def split: option.splits)

lemma callOpenAIAnalysis_stamped:
  assumes "callOpenAIAnalysis L w st apiKey region aircraft = (Inr a, st1)"
  shows "Region a = region \<and> Timestamp a = formatRFC3339 L (clock st1) \<and>
         analysisCache st1 = analysisCache st"
  using assms
  by (auto simp: callOpenAIAnalysis_def Let_def dest: analysisOfContent_stamped
      split: openai_reply.splits openai_result.splits option.splits list.splits)

lemma callOpenAIAnalysis_error_keeps_cache:
  assumes "callOpenAIAnalysis L w st apiKey region aircraft = (Inl e, st1)"
  shows "analysisCache st1 = analysisCache st"
  using assms
  by (auto simp: callOpenAIAnalysis_def Let_def
      split: openai_reply.splits openai_result.splits option.splits list.splits)

lemma performAnalysis_cache:
  "analysisCache (performAnalysis L E w st regionName) = analysisCache st \<or>
   (\<exists>a. analysisCache (performAnalysis L E w st regionName) =
          (analysisCache st)(regionName \<mapsto> a) \<and>
        Region a = regionName \<and>
        Timestamp a = formatRFC3339 L (clock (performAnalysis L E w st regionName)))"
proof (cases "OPENAI_API_KEY E \<noteq> [] \<and> hasAircraft st regionName")
  case False
  then have "performAnalysis L E w st regionName = st"
    by (auto simp: performAnalysis_def hasAircraft_def split: option.splits)
  then show ?thesis by simp
next
  case True
  then obtain data where data: "airspaceCache st regionName = Some data" "ad_Aircraft data \<noteq> []"
    by (auto simp: hasAircraft_def split: option.splits)
  obtain r st1 where call:
    "callOpenAIAnalysis L w st (OPENAI_API_KEY E) regionName (ad_Aircraft data) = (r, st1)"
    by (cases "callOpenAIAnalysis L w st (OPENAI_API_KEY E) regionName (ad_Aircraft data)")
  show ?thesis
  proof (cases r)
    case (Inl e)
    with call True data have "performAnalysis L E w st regionName = st1"
      by (simp add: performAnalysis_def)
    moreover have "analysisCache st1 = analysisCache st"
      using call Inl by (auto dest: callOpenAIAnalysis_error_keeps_cache)
    ultimately show ?thesis by simp
  next
    case (Inr analysis)
    with call True data have run: "performAnalysis L E w st regionName =
        broadcastAnalysisToClients regionName analysis
          (st1\<lparr>analysisCache := (analysisCache st1)(regionName \<mapsto> analysis)\<rparr>)"
      by (simp add: performAnalysis_def)
    have "Region analysis = regionName \<and> Timestamp analysis = formatRFC3339 L (clock st1) \<and>
         analysisCache st1 = analysisCache st"
      using call Inr by (auto dest: callOpenAIAnalysis_stamped)
    then show ?thesis
      unfolding run by (intro disjI2 exI[of _ analysis]) (simp add: broadcastAnalysisToClients_def)
  qed
qed

lemma handleRunAnalysis_cache:
  "analysisCache (snd (handleRunAnalysis L E w st httpMethod regionQuery)) = analysisCache st \<or>
   (\<exists>a. analysisCache (snd (handleRunAnalysis L E w st httpMethod regionQuery)) =
          (analysisCache st)((if regionQuery = [] then ''taiwan'' else regionQuery) \<mapsto> a) \<and>
        Region a = (if regionQuery = [] then ''taiwan'' else regionQuery) \<and>
        Timestamp a =
          formatRFC3339 L (clock (snd (handleRunAnalysis L E w st httpMethod regionQuery))))"
proof -
  let ?region = "if regionQuery = [] then ''taiwan'' else regionQuery"
  show ?thesis
  proof (cases "httpMethod = ''POST'' \<and> OPENAI_API_KEY E \<noteq> [] \<and> hasAircraft st ?region")
    case False
    then have "snd (handleRunAnalysis L E w st httpMethod regionQuery) = st"
      by (auto simp: handleRunAnalysis_def hasAircraft_def Let_def split: option.splits)
    then show ?thesis by simp
  next
    case True
    then obtain data where data: "airspaceCache st ?region = Some data" "ad_Aircraft data \<noteq> []"
      by (auto simp: hasAircraft_def split: option.splits)
    obtain r st1 where call:
      "callOpenAIAnalysis L w st (OPENAI_API_KEY E) ?region (ad_Aircraft data) = (r, st1)"
      by (cases "callOpenAIAnalysis L w st (OPENAI_API_KEY E) ?region (ad_Aircraft data)")
    show ?thesis
    proof (cases r)
      case (Inl e)
      with call True data have "snd (handleRunAnalysis L E w st httpMethod regionQuery) = st1"
        by (simp add: handleRunAnalysis_def Let_def)
      moreover have "analysisCache st1 = analysisCache st"
        using call Inl by (auto dest: callOpenAIAnalysis_error_keeps_cache)
      ultimately show ?thesis by simp
    next
      case (Inr analysis)
      with call True data have run: "snd (handleRunAnalysis L E w st httpMethod regionQuery) =
          st1\<lparr>analysisCache := (analysisCache st1)(?region \<mapsto> analysis)\<rparr>"
        by (simp add: handleRunAnalysis_def Let_def)
      have "Region analysis = ?region \<and> Timestamp analysis = formatRFC3339 L (clock st1) \<and>
           analysisCache st1 = analysisCache st"
        using call Inr by (auto dest: callOpenAIAnalysis_stamped)
      then show ?thesis
        unfolding run by (intro disjI2 exI[of _ analysis]) simp
    qed
  qed
qed

lemma wrapped_reply_analysis:
  "analysisOfContent lib0 1700000002000000000 ''taiwan'' wrapped_reply =
     Inr (zeroAnalysis\<lparr>Timestamp := ''2023-11-14T22:13:22Z'', Region := ''taiwan'',
                       Summary := ''quiet''\<rparr>)"
  by code_simp

lemma prose_reply_analysis:
  "analysisOfContent lib0 1700000002000000000 ''taiwan'' prose_reply =
     Inr \<lparr> Timestamp = ''2023-11-14T22:13:22Z'', Region = ''taiwan'',
           OverallThreatLevel = ''UNKNOWN'', ThreatScore = 0,
           Summary = ''Analysis parsing failed - raw response available'',
           KeyObservations = None, AircraftOfInterest = None,
           TacticalRecommendations = None, PatternAnalysis = None,
           NextUpdatePriority = [], Raw = prose_reply \<rparr>"
  by code_simp

lemma sample_periodic_run:
  "analysisCache (performAnalysis lib0 env_oauth (chat_answers wrapped_reply) server_nosubs ''taiwan'') =
     [''taiwan'' \<mapsto> zeroAnalysis\<lparr>Timestamp := ''2023-11-14T22:13:22Z'', Region := ''taiwan'',
                       Summary := ''quiet''\<rparr>]"
  by (simp add: performAnalysis_def callOpenAIAnalysis_def broadcastAnalysisToClients_def
      wrapped_reply_analysis chat_answers_def env_oauth_def server_nosubs_def initial_server_def
      snapshot_of_def Second_def Let_def)

lemma sample_on_demand_run:
  "analysisCache (snd (handleRunAnalysis lib0 env_oauth (chat_answers prose_reply) server_nosubs ''POST'' [])) ''taiwan'' =
     Some \<lparr> Timestamp = ''2023-11-14T22:13:22Z'', Region = ''taiwan'',
           OverallThreatLevel = ''UNKNOWN'', ThreatScore = 0,
           Summary = ''Analysis parsing failed - raw response available'',
           KeyObservations = None, AircraftOfInterest = None,
           TacticalRecommendations = None, PatternAnalysis = None,
           NextUpdatePriority = [], Raw = prose_reply \<rparr>"
  by (simp add: handleRunAnalysis_def callOpenAIAnalysis_def
      prose_reply_analysis chat_answers_def env_oauth_def server_nosubs_def initial_server_def
      snapshot_of_def Second_def Let_def)

text \<open>
  C10. Whatever the decoder makes of the reply, the periodic path and the on-demand path
  each either leave the analysis cache as it is or store, under the region they were
  run for, one analysis whose region field is that region and whose timestamp is the
  server's clock, formatted. So whenever every cached analysis carries its own key
  before a run, every cached analysis does after it.
\<close>

theorem cached_analysis_is_stamped:
  "(analysisCache (performAnalysis L E w st regionName) = analysisCache st \<or>
    (\<exists>a. analysisCache (performAnalysis L E w st regionName) =
           (analysisCache st)(regionName \<mapsto> a) \<and>
         Region a = regionName \<and>
         Timestamp a = formatRFC3339 L (clock (performAnalysis L E w st regionName)))) \<and>
   (analysisCache (snd (handleRunAnalysis L E w st httpMethod regionQuery)) = analysisCache st \<or>
    (\<exists>a. analysisCache (snd (handleRunAnalysis L E w st httpMethod regionQuery)) =
           (analysisCache st)((if regionQuery = [] then ''taiwan'' else regionQuery) \<mapsto> a) \<and>
         Region a = (if regionQuery = [] then ''taiwan'' else regionQuery) \<and>
         Timestamp a =
           formatRFC3339 L (clock (snd (handleRunAnalysis L E w st httpMethod regionQuery))))) \<and>
   ((\<forall>k a. analysisCache st k = Some a \<longrightarrow> Region a = k) \<longrightarrow>
    (\<forall>k a. analysisCache (performAnalysis L E w st regionName) k = Some a \<longrightarrow> Region a = k) \<and>
    (\<forall>k a. analysisCache (snd (handleRunAnalysis L E w st httpMethod regionQuery)) k = Some a \<longrightarrow>
       Region a = k))"
proof -
  note p = performAnalysis_cache[of L E w st regionName]
  note h = handleRunAnalysis_cache[of L E w st httpMethod regionQuery]
  have "(\<forall>k a. analysisCache (performAnalysis L E w st regionName) k = Some a \<longrightarrow> Region a = k)"
    if "\<forall>k a. analysisCache st k = Some a \<longrightarrow> Region a = k"
    using p that by (auto split: if_splits)
  moreover have "(\<forall>k a. analysisCache (snd (handleRunAnalysis L E w st httpMethod regionQuery)) k = Some a
      \<longrightarrow> Region a = k)"
    if "\<forall>k a. analysisCache st k = Some a \<longrightarrow> Region a = k"
    using h that by (auto split: if_splits)
  ultimately show ?thesis using p h by blast
qed

theorem cached_analysis_is_stamped_witness:
  "analysisCache server_nosubs = Map.empty \<and>
   analysisCache
     (performAnalysis lib0 env_oauth (chat_answers wrapped_reply) server_nosubs ''taiwan'')
     ''taiwan'' =
     Some (zeroAnalysis\<lparr>Timestamp := ''2023-11-14T22:13:22Z'', Region := ''taiwan'',
                        Summary := ''quiet''\<rparr>) \<and>
   map_option Region (analysisCache
     (snd (handleRunAnalysis lib0 env_oauth (chat_answers prose_reply) server_nosubs ''POST'' []))
     ''taiwan'') = Some ''taiwan'' \<and>
   map_option Raw (analysisCache
     (snd (handleRunAnalysis lib0 env_oauth (chat_answers prose_reply) server_nosubs ''POST'' []))
     ''taiwan'') = Some prose_reply"
proof -
  have empty: "\<forall>k a. analysisCache server_nosubs k = Some a \<longrightarrow> Region a = k"
    by (simp add: server_nosubs_def initial_server_def)
  have keyed: "\<forall>k a. analysisCache (snd (handleRunAnalysis lib0 env_oauth (chat_answers prose_reply)
      server_nosubs ''POST'' [])) k = Some a \<longrightarrow> Region a = k"
    using cached_analysis_is_stamped[of lib0 env_oauth "chat_answers prose_reply" server_nosubs
        "''taiwan''" "''POST''" "[]"] empty
    by blast
  have "map_option Region (analysisCache
     (snd (handleRunAnalysis lib0 env_oauth (chat_answers prose_reply) server_nosubs ''POST'' []))
     ''taiwan'') = Some ''taiwan''"
    using keyed sample_on_demand_run by simp
  moreover have "analysisCache server_nosubs = Map.empty"
    by (simp add: server_nosubs_def initial_server_def)
  ultimately show ?thesis
    by (simp add: sample_periodic_run sample_on_demand_run)
qed

section \<open>The rate limiter under concurrent fetchers\<close>

lemma minGap_bounds: "0 < minGap E \<and> minGap E < 2 ^ 63"
  by (simp add: minGap_def Second_def)

lemma limiterWait_None:
  assumes "lastCall \<le> now" "limiterWait E lastCall now = None"
  shows "lastCall + minGap E \<le> now"
  using assms minGap_bounds[of E]
  by (auto simp: limiterWait_def time_Sub_def Let_def maxDuration_def minDuration_def split: if_splits)

lemma limiterWait_Some:
  assumes "lastCall \<le> now" "limiterWait E lastCall now = Some wait"
  shows "lastCall + minGap E \<le> wakeTime now wait"
proof -
  let ?d = "now - lastCall"
  from assms have el: "time_Sub now lastCall < minGap E" and w: "wait = wrap64 (minGap E - time_Sub now lastCall)"
    by (auto simp: limiterWait_def Let_def split: if_splits)
  have d: "time_Sub now lastCall = ?d"
    using el assms(1) minGap_bounds[of E]
    by (auto simp: time_Sub_def Let_def maxDuration_def minDuration_def split: if_splits)
  have r: "0 < minGap E - ?d" "minGap E - ?d < 2 ^ 63"
    using el d assms(1) minGap_bounds[of E] by auto
  then have "wrap64 (minGap E - ?d) = minGap E - ?d"
    by (simp add: wrap64_def)
  with w d r show ?thesis by (simp add: wakeTime_def)
qed

text \<open>
  The prologue as \<^verbatim>\<open>fetchOpenSkyData\<close> runs it in the sequential model: the new stamp is the
  clock, and it lies at least the minimum gap after the previous one. One goroutine
  running alone in the step machine ends with that same clock and stamp.
\<close>

lemma rateLimit_gap:
  assumes "lastOpenSkyCall st \<le> clock st"
  shows "lastOpenSkyCall st + minGap E \<le> lastOpenSkyCall (rateLimit E extra st) \<and>
         lastOpenSkyCall (rateLimit E extra st) = clock (rateLimit E extra st) \<and>
         clock st \<le> clock (rateLimit E extra st)"
proof (cases "limiterWait E (lastOpenSkyCall st) (clock st)")
  case None
  then show ?thesis
    using limiterWait_None[OF assms None] by (simp add: rateLimit_def)
next
  case (Some wait)
  then show ?thesis
    using limiterWait_Some[OF assms Some]
    by (simp add: rateLimit_def time_Sleep_def wakeTime_def)
qed

lemma rateLimit_is_solo_run:
  assumes "l_pc s i = Idle" "l_mutex s = None"
    and "clock st = l_clock s" "lastOpenSkyCall st = l_lastOpenSkyCall s"
  shows "\<exists>s'. run E (solo_prologue E i extra s) s = Some s' \<and>
              l_clock s' = clock (rateLimit E extra st) \<and>
              l_lastOpenSkyCall s' = lastOpenSkyCall (rateLimit E extra st) \<and>
              l_mutex s' = None \<and>
              l_pc s' i = Requesting (lastOpenSkyCall (rateLimit E extra st))"
proof (cases "limiterWait E (l_lastOpenSkyCall s) (l_clock s)")
  case None
  with assms show ?thesis
    by (simp add: solo_prologue_def rateLimit_def moveTo_def)
next
  case (Some wait)
  with assms show ?thesis
    by (simp add: solo_prologue_def rateLimit_def moveTo_def time_Sleep_def wakeTime_def)
qed

lemma inv_init: "limiter_inv E (limiter_init t0)"
  by (simp add: limiter_inv_def limiter_init_def zeroTime_def Second_def)

lemma invI:
  assumes "l_lastOpenSkyCall s \<le> l_clock s"
    and "\<And>v. v \<in> set (l_stamps s) \<Longrightarrow> v \<le> l_lastOpenSkyCall s"
    and "sorted_wrt (\<lambda>newer older. older + minGap E \<le> newer) (l_stamps s)"
    and "\<And>i. holdsMutex (l_pc s i) \<Longrightarrow> l_mutex s = Some i"
    and "\<And>i t. l_pc s i = Sleeping t \<Longrightarrow> l_lastOpenSkyCall s + minGap E \<le> t"
    and "\<And>i. l_pc s i = Stamping \<Longrightarrow> l_lastOpenSkyCall s + minGap E \<le> l_clock s"
    and "\<And>i u. l_pc s i = Unlocking u \<or> l_pc s i = Requesting u \<Longrightarrow>
           u \<in> set (l_stamps s) \<and> u \<le> l_clock s"
    and "\<And>u t. (u, t) \<in> set (l_requests s) \<Longrightarrow> u \<in> set (l_stamps s) \<and> u \<le> t"
  shows "limiter_inv E s"
  unfolding limiter_inv_def list_all_iff using assms by blast

lemma invD:
  assumes "limiter_inv E s"
  shows "l_lastOpenSkyCall s \<le> l_clock s"
    and "\<And>v. v \<in> set (l_stamps s) \<Longrightarrow> v \<le> l_lastOpenSkyCall s"
    and "sorted_wrt (\<lambda>newer older. older + minGap E \<le> newer) (l_stamps s)"
    and "\<And>i. holdsMutex (l_pc s i) \<Longrightarrow> l_mutex s = Some i"
    and "\<And>i t. l_pc s i = Sleeping t \<Longrightarrow> l_lastOpenSkyCall s + minGap E \<le> t"
    and "\<And>i. l_pc s i = Stamping \<Longrightarrow> l_lastOpenSkyCall s + minGap E \<le> l_clock s"
    and "\<And>i u. l_pc s i = Unlocking u \<or> l_pc s i = Requesting u \<Longrightarrow>
           u \<in> set (l_stamps s) \<and> u \<le> l_clock s"
    and "\<And>u t. (u, t) \<in> set (l_requests s) \<Longrightarrow> u \<in> set (l_stamps s) \<and> u \<le> t"
  using assms unfolding limiter_inv_def list_all_iff by blast+

lemma inv_Tick:
  assumes inv: "limiter_inv E s"
  shows "limiter_inv E (s\<lparr>l_clock := l_clock s + int d\<rparr>)"
proof (rule invI)
  show "l_lastOpenSkyCall (s\<lparr>l_clock := l_clock s + int d\<rparr>) \<le> l_clock (s\<lparr>l_clock := l_clock s + int d\<rparr>)"
    using invD(1)[OF inv] by simp
next
  fix i assume "l_pc (s\<lparr>l_clock := l_clock s + int d\<rparr>) i = Stamping"
  then show "l_lastOpenSkyCall (s\<lparr>l_clock := l_clock s + int d\<rparr>) + minGap E \<le> l_clock (s\<lparr>l_clock := l_clock s + int d\<rparr>)"
    using invD(6)[OF inv, of i] by simp
next
  fix i u assume "l_pc (s\<lparr>l_clock := l_clock s + int d\<rparr>) i = Unlocking u \<or> l_pc (s\<lparr>l_clock := l_clock s + int d\<rparr>) i = Requesting u"
  then show "u \<in> set (l_stamps (s\<lparr>l_clock := l_clock s + int d\<rparr>)) \<and> u \<le> l_clock (s\<lparr>l_clock := l_clock s + int d\<rparr>)"
    using invD(7)[OF inv, of i u] by auto
qed (use invD[OF inv] in simp_all)

lemma inv_Lock:
  assumes inv: "limiter_inv E s" and pc: "l_pc s i = Idle" and free: "l_mutex s = None"
  shows "limiter_inv E (moveTo i Checking (s\<lparr>l_mutex := Some i\<rparr>))"
proof (rule invI)
  fix j assume "holdsMutex (l_pc (moveTo i Checking (s\<lparr>l_mutex := Some i\<rparr>)) j)"
  then show "l_mutex (moveTo i Checking (s\<lparr>l_mutex := Some i\<rparr>)) = Some j"
    using invD(4)[OF inv, of j] free by (auto simp: moveTo_def split: if_splits)
next
  fix j t assume "l_pc (moveTo i Checking (s\<lparr>l_mutex := Some i\<rparr>)) j = Sleeping t"
  then show "l_lastOpenSkyCall (moveTo i Checking (s\<lparr>l_mutex := Some i\<rparr>)) + minGap E \<le> t"
    using invD(5)[OF inv, of j t] by (auto simp: moveTo_def split: if_splits)
next
  fix j assume "l_pc (moveTo i Checking (s\<lparr>l_mutex := Some i\<rparr>)) j = Stamping"
  then show "l_lastOpenSkyCall (moveTo i Checking (s\<lparr>l_mutex := Some i\<rparr>)) + minGap E
       \<le> l_clock (moveTo i Checking (s\<lparr>l_mutex := Some i\<rparr>))"
    using invD(6)[OF inv, of j] by (auto simp: moveTo_def split: if_splits)
next
  fix j u assume "l_pc (moveTo i Checking (s\<lparr>l_mutex := Some i\<rparr>)) j = Unlocking u \<or>
                  l_pc (moveTo i Checking (s\<lparr>l_mutex := Some i\<rparr>)) j = Requesting u"
  then show "u \<in> set (l_stamps (moveTo i Checking (s\<lparr>l_mutex := Some i\<rparr>))) \<and>
             u \<le> l_clock (moveTo i Checking (s\<lparr>l_mutex := Some i\<rparr>))"
    using invD(7)[OF inv, of j u] by (auto simp: moveTo_def split: if_splits)
qed (use invD[OF inv] in \<open>simp_all add: moveTo_def\<close>)

lemma inv_moveTo:
  assumes inv: "limiter_inv E s"
    and "holdsMutex q \<Longrightarrow> l_mutex s = Some i"
    and "\<And>t. q = Sleeping t \<Longrightarrow> l_lastOpenSkyCall s + minGap E \<le> t"
    and "q = Stamping \<Longrightarrow> l_lastOpenSkyCall s + minGap E \<le> l_clock s"
    and "\<And>u. q = Unlocking u \<or> q = Requesting u \<Longrightarrow> u \<in> set (l_stamps s) \<and> u \<le> l_clock s"
  shows "limiter_inv E (moveTo i q s)"
proof (rule invI)
  fix j assume "holdsMutex (l_pc (moveTo i q s) j)"
  then show "l_mutex (moveTo i q s) = Some j"
    using invD(4)[OF inv, of j] assms(2) by (auto simp: moveTo_def split: if_splits)
next
  fix j t assume "l_pc (moveTo i q s) j = Sleeping t"
  then show "l_lastOpenSkyCall (moveTo i q s) + minGap E \<le> t"
    using invD(5)[OF inv, of j t] assms(3)[of t] by (auto simp: moveTo_def split: if_splits)
next
  fix j assume "l_pc (moveTo i q s) j = Stamping"
  then show "l_lastOpenSkyCall (moveTo i q s) + minGap E \<le> l_clock (moveTo i q s)"
    using invD(6)[OF inv, of j] assms(4) by (auto simp: moveTo_def split: if_splits)
next
  fix j u assume "l_pc (moveTo i q s) j = Unlocking u \<or> l_pc (moveTo i q s) j = Requesting u"
  then show "u \<in> set (l_stamps (moveTo i q s)) \<and> u \<le> l_clock (moveTo i q s)"
    using invD(7)[OF inv, of j u] assms(5)[of u] by (auto simp: moveTo_def split: if_splits)
qed (use invD[OF inv] in \<open>simp_all add: moveTo_def\<close>)

lemma inv_Stamp:
  assumes inv: "limiter_inv E s" and pc: "l_pc s i = Stamping"
  shows "limiter_inv E (moveTo i (Unlocking (l_clock s))
           (s\<lparr>l_lastOpenSkyCall := l_clock s, l_stamps := l_clock s # l_stamps s\<rparr>))"
    (is "limiter_inv E ?s'")
proof (rule invI)
  have holder: "l_mutex s = Some i" using invD(4)[OF inv, of i] pc by simp
  have gap: "l_lastOpenSkyCall s + minGap E \<le> l_clock s" using invD(6)[OF inv pc] .
  have older: "\<And>v. v \<in> set (l_stamps s) \<Longrightarrow> v \<le> l_lastOpenSkyCall s"
    using invD(2)[OF inv] .
  show "l_lastOpenSkyCall ?s' \<le> l_clock ?s'" by (simp add: moveTo_def)
  show "\<And>v. v \<in> set (l_stamps ?s') \<Longrightarrow> v \<le> l_lastOpenSkyCall ?s'"
    using older invD(1)[OF inv] by (fastforce simp: moveTo_def)
  show "sorted_wrt (\<lambda>newer older. older + minGap E \<le> newer) (l_stamps ?s')"
    using older gap invD(3)[OF inv] by (fastforce simp: moveTo_def)
  show "\<And>j. holdsMutex (l_pc ?s' j) \<Longrightarrow> l_mutex ?s' = Some j"
    using invD(4)[OF inv] holder by (auto simp: moveTo_def split: if_splits)
  show "\<And>j t. l_pc ?s' j = Sleeping t \<Longrightarrow> l_lastOpenSkyCall ?s' + minGap E \<le> t"
  proof -
    fix j t assume a: "l_pc ?s' j = Sleeping t"
    then have "j \<noteq> i" "l_pc s j = Sleeping t" by (auto simp: moveTo_def split: if_splits)
    then have "l_mutex s = Some j" using invD(4)[OF inv, of j] by simp
    with holder \<open>j \<noteq> i\<close> show "l_lastOpenSkyCall ?s' + minGap E \<le> t" by simp
  qed
  show "\<And>j. l_pc ?s' j = Stamping \<Longrightarrow> l_lastOpenSkyCall ?s' + minGap E \<le> l_clock ?s'"
  proof -
    fix j assume a: "l_pc ?s' j = Stamping"
    then have "j \<noteq> i" "l_pc s j = Stamping" by (auto simp: moveTo_def split: if_splits)
    then have "l_mutex s = Some j" using invD(4)[OF inv, of j] by simp
    with holder \<open>j \<noteq> i\<close> show "l_lastOpenSkyCall ?s' + minGap E \<le> l_clock ?s'" by simp
  qed
  show "\<And>j u. l_pc ?s' j = Unlocking u \<or> l_pc ?s' j = Requesting u \<Longrightarrow>
          u \<in> set (l_stamps ?s') \<and> u \<le> l_clock ?s'"
    using invD(7)[OF inv] by (auto simp: moveTo_def split: if_splits)
  show "\<And>u t. (u, t) \<in> set (l_requests ?s') \<Longrightarrow> u \<in> set (l_stamps ?s') \<and> u \<le> t"
    using invD(8)[OF inv] by (auto simp: moveTo_def)
qed

lemma inv_Unlock:
  assumes inv: "limiter_inv E s" and pc: "l_pc s i = Unlocking u"
  shows "limiter_inv E (moveTo i (Requesting u) (s\<lparr>l_mutex := None\<rparr>))"
    (is "limiter_inv E ?s'")
proof (rule invI)
  have holder: "l_mutex s = Some i" using invD(4)[OF inv, of i] pc by simp
  show "\<And>j. holdsMutex (l_pc ?s' j) \<Longrightarrow> l_mutex ?s' = Some j"
  proof -
    fix j assume a: "holdsMutex (l_pc ?s' j)"
    then have "j \<noteq> i" "holdsMutex (l_pc s j)" by (auto simp: moveTo_def split: if_splits)
    then have "l_mutex s = Some j" using invD(4)[OF inv, of j] by simp
    with holder \<open>j \<noteq> i\<close> show "l_mutex ?s' = Some j" by simp
  qed
  show "\<And>j t. l_pc ?s' j = Sleeping t \<Longrightarrow> l_lastOpenSkyCall ?s' + minGap E \<le> t"
    using invD(5)[OF inv] by (auto simp: moveTo_def split: if_splits)
  show "\<And>j. l_pc ?s' j = Stamping \<Longrightarrow> l_lastOpenSkyCall ?s' + minGap E \<le> l_clock ?s'"
    using invD(6)[OF inv] by (auto simp: moveTo_def split: if_splits)
  show "\<And>j v. l_pc ?s' j = Unlocking v \<or> l_pc ?s' j = Requesting v \<Longrightarrow>
          v \<in> set (l_stamps ?s') \<and> v \<le> l_clock ?s'"
    using invD(7)[OF inv] pc by (auto simp: moveTo_def split: if_splits)
qed (use invD[OF inv] in \<open>simp_all add: moveTo_def\<close>)

lemma inv_Request:
  assumes inv: "limiter_inv E s" and pc: "l_pc s i = Requesting u"
  shows "limiter_inv E (moveTo i Idle (s\<lparr>l_requests := (u, l_clock s) # l_requests s\<rparr>))"
    (is "limiter_inv E ?s'")
proof (rule invI)
  show "\<And>j. holdsMutex (l_pc ?s' j) \<Longrightarrow> l_mutex ?s' = Some j"
    using invD(4)[OF inv] by (auto simp: moveTo_def split: if_splits)
  show "\<And>j t. l_pc ?s' j = Sleeping t \<Longrightarrow> l_lastOpenSkyCall ?s' + minGap E \<le> t"
    using invD(5)[OF inv] by (auto simp: moveTo_def split: if_splits)
  show "\<And>j. l_pc ?s' j = Stamping \<Longrightarrow> l_lastOpenSkyCall ?s' + minGap E \<le> l_clock ?s'"
    using invD(6)[OF inv] by (auto simp: moveTo_def split: if_splits)
  show "\<And>j v. l_pc ?s' j = Unlocking v \<or> l_pc ?s' j = Requesting v \<Longrightarrow>
          v \<in> set (l_stamps ?s') \<and> v \<le> l_clock ?s'"
    using invD(7)[OF inv] by (auto simp: moveTo_def split: if_splits)
  show "\<And>v t. (v, t) \<in> set (l_requests ?s') \<Longrightarrow> v \<in> set (l_stamps ?s') \<and> v \<le> t"
    using invD(8)[OF inv] invD(7)[OF inv, of i u] pc by (auto simp: moveTo_def)
qed (use invD[OF inv] in \<open>simp_all add: moveTo_def\<close>)

lemma inv_step:
  assumes inv: "limiter_inv E s" and st: "step E a s = Some s'"
  shows "limiter_inv E s'"
proof (cases a)
  case (Tick d)
  with st inv show ?thesis by (auto intro: inv_Tick)
next
  case (Lock i)
  with st inv show ?thesis by (auto intro: inv_Lock split: if_splits)
next
  case (Check i)
  with st have pc: "l_pc s i = Checking" by (auto split: if_splits)
  then have holder: "l_mutex s = Some i" using invD(4)[OF inv, of i] by simp
  show ?thesis
  proof (cases "limiterWait E (l_lastOpenSkyCall s) (l_clock s)")
    case None
    then have "l_lastOpenSkyCall s + minGap E \<le> l_clock s"
      using limiterWait_None[OF invD(1)[OF inv]] by simp
    with st Check pc None inv holder show ?thesis by (auto intro!: inv_moveTo)
  next
    case (Some wait)
    then have "l_lastOpenSkyCall s + minGap E \<le> wakeTime (l_clock s) wait"
      using limiterWait_Some[OF invD(1)[OF inv]] by simp
    with st Check pc Some inv holder show ?thesis by (auto intro!: inv_moveTo)
  qed
next
  case (Wake i)
  with st obtain t where pc: "l_pc s i = Sleeping t" and t: "t \<le> l_clock s"
    and s': "s' = moveTo i Stamping s"
    by (auto split: pc.splits if_splits)
  have "l_mutex s = Some i" using invD(4)[OF inv, of i] pc by simp
  moreover have "l_lastOpenSkyCall s + minGap E \<le> l_clock s"
    using invD(5)[OF inv pc] t by simp
  ultimately show ?thesis unfolding s' using inv by (auto intro!: inv_moveTo)
next
  case (Stamp i)
  with st inv show ?thesis by (auto intro: inv_Stamp split: if_splits)
next
  case (Unlock i)
  with st inv show ?thesis by (auto intro: inv_Unlock split: pc.splits)
next
  case (Request i)
  with st inv show ?thesis by (auto intro: inv_Request split: pc.splits)
qed

lemma inv_run:
  "limiter_inv E s \<Longrightarrow> run E acts s = Some s' \<Longrightarrow> limiter_inv E s'"
proof (induction acts arbitrary: s)
  case Nil
  then show ?case by simp
next
  case (Cons a acts)
  then show ?case by (auto split: option.splits dest: inv_step)
qed

lemma sorted_wrt_pair:
  "sorted_wrt P xs \<Longrightarrow> x \<in> set xs \<Longrightarrow> y \<in> set xs \<Longrightarrow> x = y \<or> P x y \<or> P y x"
  by (induction xs) auto

lemmas limiter_eval =
  two_fetchers_def limiter_init_def env_oauth_def limiterWait_def minGap_def hasAuth_def
  time_Sub_def wrap64_def wakeTime_def moveTo_def zeroTime_def Second_def maxDuration_def
  minDuration_def Let_def

lemma two_fetchers_requests:
  "map_option l_requests (run env_oauth two_fetchers (limiter_init 1700000000000000000)) =
     Some [(1700000003000000000, 1700000003005000000),
           (1700000000000000000, 1700000001000000000)]"
  by (simp add: limiter_eval)

lemma two_fetchers_stamps:
  "map_option l_stamps (run env_oauth two_fetchers (limiter_init 1700000000000000000)) =
     Some [1700000003000000000, 1700000000000000000]"
  by (simp add: limiter_eval)

text \<open>
  What follows the prologue in \<^verbatim>\<open>fetchOpenSkyData\<close> leaves the stamp alone and never turns
  the clock back, so the stamp a call leaves behind is the one its prologue wrote, and
  its query is started no earlier than that.
\<close>

lemma getOpenSkyToken_limiter:
  "lastOpenSkyCall (snd (getOpenSkyToken E w st)) = lastOpenSkyCall st"
  "queryStarts (snd (getOpenSkyToken E w st)) = queryStarts st"
  "clock st \<le> clock (snd (getOpenSkyToken E w st))"
  by (simp_all add: getOpenSkyToken_def Let_def split: token_reply.splits option.splits prod.splits)

lemma attachAuth_limiter:
  "lastOpenSkyCall (snd (attachAuth E w st)) = lastOpenSkyCall st"
  "queryStarts (snd (attachAuth E w st)) = queryStarts st"
  "clock st \<le> clock (snd (attachAuth E w st))"
  using getOpenSkyToken_limiter[where E = E and w = w and st = st]
  by (auto simp: attachAuth_def split: prod.splits sum.splits)

lemma rateLimit_queryStarts:
  "queryStarts (rateLimit E extra st) = queryStarts st"
  by (simp add: rateLimit_def time_Sleep_def Let_def split: option.splits)

lemma fetchOpenSkyData_stamp:
  "lastOpenSkyCall (snd (fetchOpenSkyData L E w st region)) =
     lastOpenSkyCall (rateLimit E (fw_sleep_extra w) st)"
  "clock (rateLimit E (fw_sleep_extra w) st) \<le> clock (snd (fetchOpenSkyData L E w st region))"
  using attachAuth_limiter[where E = E and w = "fw_token w" and st = "rateLimit E (fw_sleep_extra w) st"]
  by (auto simp: fetchOpenSkyData_def Let_def
      split: opensky_reply.splits opensky_result.splits prod.splits option.splits)

lemma fetchOpenSkyData_queryStarts:
  assumes "t \<in> set (newQueryStarts st (snd (fetchOpenSkyData L E w st region)))"
  shows "clock (rateLimit E (fw_sleep_extra w) st) \<le> t"
  using assms attachAuth_limiter[where E = E and w = "fw_token w" and st = "rateLimit E (fw_sleep_extra w) st"]
  by (auto simp: fetchOpenSkyData_def Let_def newQueryStarts_def rateLimit_queryStarts
      split: opensky_reply.splits opensky_result.splits prod.splits option.splits if_splits)

lemma fetchOpenSkyData_gap:
  assumes "lastOpenSkyCall st \<le> clock st"
  shows "lastOpenSkyCall st + minGap E \<le> lastOpenSkyCall (snd (fetchOpenSkyData L E w st region))"
    and "lastOpenSkyCall (snd (fetchOpenSkyData L E w st region)) \<le>
         clock (snd (fetchOpenSkyData L E w st region))"
    and "clock st \<le> lastOpenSkyCall (snd (fetchOpenSkyData L E w st region))"
    and "\<And>t. t \<in> set (newQueryStarts st (snd (fetchOpenSkyData L E w st region))) \<Longrightarrow>
           lastOpenSkyCall (snd (fetchOpenSkyData L E w st region)) \<le> t"
  using rateLimit_gap[OF assms, where E = E and extra = "fw_sleep_extra w"]
    fetchOpenSkyData_stamp[where L = L and E = E and w = w and st = st and region = region]
    fetchOpenSkyData_queryStarts[where L = L and E = E and w = w and st = st and region = region]
  by auto

lemma attachAuth_minGap:
  "fst (attachAuth E tw st) \<noteq> NoAuth \<Longrightarrow> minGap E = 3 * Second"
  "OPENSKY_CLIENT_ID E = [] \<and> OPENSKY_USERNAME E = [] \<Longrightarrow> fst (attachAuth E tw st) = NoAuth"
  by (auto simp: attachAuth_def minGap_def hasAuth_def split: if_splits)

lemma limiter_runs:
  assumes "run E acts (limiter_init t0) = Some s"
  shows "(\<forall>(u, t) \<in> set (l_requests s).
            u \<in> set (l_stamps s) \<and> u \<le> t \<and>
            (\<forall>v \<in> set (l_stamps s). v < u \<longrightarrow> v + minGap E \<le> u \<and> v + minGap E \<le> t)) \<and>
         sorted_wrt (\<lambda>newer older. older + minGap E \<le> newer) (l_stamps s) \<and>
         (\<forall>i j. holdsMutex (l_pc s i) \<and> holdsMutex (l_pc s j) \<longrightarrow> i = j)"
proof -
  have inv: "limiter_inv E s"
    using inv_run[OF inv_init assms] .
  have sorted: "sorted_wrt (\<lambda>newer older. older + minGap E \<le> newer) (l_stamps s)"
    using invD(3)[OF inv] .
  have req: "u \<in> set (l_stamps s) \<and> u \<le> t \<and>
      (\<forall>v \<in> set (l_stamps s). v < u \<longrightarrow> v + minGap E \<le> u \<and> v + minGap E \<le> t)"
    if "(u, t) \<in> set (l_requests s)" for u t
  proof -
    have ut: "u \<in> set (l_stamps s)" "u \<le> t" using invD(8)[OF inv that] by simp_all
    have "v + minGap E \<le> u" if "v \<in> set (l_stamps s)" "v < u" for v
      using sorted_wrt_pair[OF sorted ut(1) that(1)] that(2) minGap_bounds[of E] by auto
    with ut show ?thesis by fastforce
  qed
  have excl: "i = j" if "holdsMutex (l_pc s i)" "holdsMutex (l_pc s j)" for i j
    using invD(4)[OF inv that(1)] invD(4)[OF inv that(2)] by simp
  from req sorted excl show ?thesis by auto
qed

lemmas fetch_eval =
  first_fetch_def second_start_def second_fetch_def server_recent_def server_token_def
  server_nosubs_def initial_server_def fetch_rows_def token_granted_def env_nosecret_def
  env_oauth_def fetchOpenSkyData_def rateLimit_def attachAuth_def getOpenSkyToken_def
  time_Sleep_def newQueryStarts_def limiterWait_def minGap_def hasAuth_def time_Sub_def
  wrap64_def wakeTime_def zeroTime_def Second_def maxDuration_def minDuration_def Let_def

lemma first_fetch_eval:
  "lastOpenSkyCall server_token \<le> clock server_token \<and>
   lastOpenSkyCall first_fetch = 1700000000000000000 \<and>
   clock first_fetch = 1700000000150000000 \<and>
   newQueryStarts server_token first_fetch = [1700000000000000000]"
  by (simp add: fetch_eval)

lemma second_start_eval:
  "lastOpenSkyCall second_start = 1700000000000000000 \<and>
   clock second_start = 1700000001000000000"
  by (simp add: fetch_eval)

lemma second_fetch_eval:
  "lastOpenSkyCall second_fetch = 1700000003000000000 \<and>
   newQueryStarts second_start second_fetch = [1700000003000000000] \<and>
   requests second_fetch =
     [StatesQuery region_taiwan (Bearer ''tok-0''), StatesQuery region_socal (Bearer ''tok-0'')]"
  by (simp add: fetch_eval)

text \<open>
  C7, as the code has it. A call of \<^verbatim>\<open>fetchOpenSkyData\<close> that finds the previous stamp
  not later than the clock leaves a stamp at least the minimum gap after it, and starts
  its query no earlier than its own stamp. So of two calls, for any regions, with
  anything in between that moves the stamp neither back nor past the clock (other calls
  among it), the second is stamped, and starts its query, no earlier than the minimum
  gap after the stamp of the first. The goroutine that runs the prologue alone in the step machine
  leaves the very stamp the call leaves. Along every run of any number of goroutines,
  from a start in which nothing has been fetched: every upstream request starts no
  earlier than its own call's stamp, and no earlier than the minimum gap after the stamp
  of every call stamped before it; the stamps of any two calls are at least the minimum
  gap apart; at most one goroutine at a time is between taking the mutex and releasing
  it, which spans the gap check, the sleep and the stamp. The minimum gap is 3 or 6
  seconds, by which variables are set and not by what the request carries: 3 seconds
  when the client id is set, or the username and the password are, hence whenever the
  request carries a credential; 6 seconds when neither the client id nor the username
  is set, and the request is then anonymous.
\<close>

theorem fetchers_keep_min_gap:
  assumes start: "lastOpenSkyCall st \<le> clock st"
    and first: "st1 = snd (fetchOpenSkyData L E w1 st region1)"
    and between: "lastOpenSkyCall st1 \<le> lastOpenSkyCall mid" "lastOpenSkyCall mid \<le> clock mid"
    and second: "st2 = snd (fetchOpenSkyData L E w2 mid region2)"
    and alone: "l_pc s0 i = Idle" "l_mutex s0 = None"
      "l_clock s0 = clock st" "l_lastOpenSkyCall s0 = lastOpenSkyCall st"
    and interleaved: "run E acts (limiter_init t0) = Some s"
  shows "lastOpenSkyCall st + minGap E \<le> lastOpenSkyCall st1 \<and>
         (\<forall>t \<in> set (newQueryStarts st st1). lastOpenSkyCall st1 \<le> t) \<and>
         lastOpenSkyCall st1 + minGap E \<le> lastOpenSkyCall st2 \<and>
         (\<forall>t \<in> set (newQueryStarts mid st2).
            lastOpenSkyCall st2 \<le> t \<and> lastOpenSkyCall st1 + minGap E \<le> t) \<and>
         (\<exists>s'. run E (solo_prologue E i (fw_sleep_extra w1) s0) s0 = Some s' \<and>
               l_lastOpenSkyCall s' = lastOpenSkyCall st1 \<and>
               l_mutex s' = None \<and>
               l_pc s' i = Requesting (lastOpenSkyCall st1)) \<and>
         (\<forall>(u, t) \<in> set (l_requests s).
            u \<in> set (l_stamps s) \<and> u \<le> t \<and>
            (\<forall>v \<in> set (l_stamps s). v < u \<longrightarrow> v + minGap E \<le> u \<and> v + minGap E \<le> t)) \<and>
         sorted_wrt (\<lambda>newer older. older + minGap E \<le> newer) (l_stamps s) \<and>
         (\<forall>i j. holdsMutex (l_pc s i) \<and> holdsMutex (l_pc s j) \<longrightarrow> i = j) \<and>
         (minGap E = 3 * Second \<or> minGap E = 6 * Second) \<and>
         (OPENSKY_CLIENT_ID E \<noteq> [] \<or> OPENSKY_USERNAME E \<noteq> [] \<and> OPENSKY_PASSWORD E \<noteq> [] \<longrightarrow>
            minGap E = 3 * Second) \<and>
         (fst (attachAuth E tw sx) \<noteq> NoAuth \<longrightarrow> minGap E = 3 * Second) \<and>
         (OPENSKY_CLIENT_ID E = [] \<and> OPENSKY_USERNAME E = [] \<longrightarrow>
            minGap E = 6 * Second \<and> fst (attachAuth E tw sx) = NoAuth)"
proof -
  have one: "lastOpenSkyCall st + minGap E \<le> lastOpenSkyCall st1"
    and q1: "\<And>t. t \<in> set (newQueryStarts st st1) \<Longrightarrow> lastOpenSkyCall st1 \<le> t"
    unfolding first using fetchOpenSkyData_gap[OF start, where E = E and L = L and w = w1 and region = region1] by blast+
  have two: "lastOpenSkyCall st1 + minGap E \<le> lastOpenSkyCall st2"
    and q2: "\<And>t. t \<in> set (newQueryStarts mid st2) \<Longrightarrow> lastOpenSkyCall st2 \<le> t"
    unfolding second
    using fetchOpenSkyData_gap[OF between(2), where E = E and L = L and w = w2 and region = region2]
      between(1) by auto
  have st: "clock st = l_clock s0" "lastOpenSkyCall st = l_lastOpenSkyCall s0"
    using alone by simp_all
  have solo: "\<exists>s'. run E (solo_prologue E i (fw_sleep_extra w1) s0) s0 = Some s' \<and>
               l_lastOpenSkyCall s' = lastOpenSkyCall st1 \<and>
               l_mutex s' = None \<and>
               l_pc s' i = Requesting (lastOpenSkyCall st1)"
    using rateLimit_is_solo_run[OF alone(1,2) st, where E = E and extra = "fw_sleep_extra w1"]
    unfolding first fetchOpenSkyData_stamp(1) by blast
  have gaps: "(minGap E = 3 * Second \<or> minGap E = 6 * Second) \<and>
      (OPENSKY_CLIENT_ID E \<noteq> [] \<or> OPENSKY_USERNAME E \<noteq> [] \<and> OPENSKY_PASSWORD E \<noteq> [] \<longrightarrow>
         minGap E = 3 * Second) \<and>
      (fst (attachAuth E tw sx) \<noteq> NoAuth \<longrightarrow> minGap E = 3 * Second) \<and>
      (OPENSKY_CLIENT_ID E = [] \<and> OPENSKY_USERNAME E = [] \<longrightarrow>
         minGap E = 6 * Second \<and> fst (attachAuth E tw sx) = NoAuth)"
    using attachAuth_minGap[where E = E and tw = tw and st = sx] by (auto simp: minGap_def hasAuth_def)
  have later: "lastOpenSkyCall st2 \<le> t \<and> lastOpenSkyCall st1 + minGap E \<le> t"
    if "t \<in> set (newQueryStarts mid st2)" for t
    using q2[OF that] two by simp
  from one q1 two later solo limiter_runs[OF interleaved] gaps show ?thesis
    by blast
qed

theorem fetchers_keep_min_gap_witness:
  "lastOpenSkyCall server_token \<le> clock server_token \<and>
   lastOpenSkyCall first_fetch = 1700000000000000000 \<and>
   newQueryStarts server_token first_fetch = [1700000000000000000] \<and>
   lastOpenSkyCall second_start = lastOpenSkyCall first_fetch \<and>
   clock second_start = lastOpenSkyCall first_fetch + 1000000000 \<and>
   lastOpenSkyCall second_fetch = 1700000003000000000 \<and>
   newQueryStarts second_start second_fetch = [1700000003000000000] \<and>
   map_option l_requests (run env_oauth two_fetchers (limiter_init 1700000000000000000)) =
     Some [(1700000003000000000, 1700000003005000000),
           (1700000000000000000, 1700000001000000000)] \<and>
   map_option l_stamps (run env_oauth two_fetchers (limiter_init 1700000000000000000)) =
     Some [1700000003000000000, 1700000000000000000] \<and>
   minGap env_oauth = 3000000000 \<and>
   lastOpenSkyCall first_fetch + minGap env_oauth \<le> lastOpenSkyCall second_fetch \<and>
   (1700000000000000000 :: int) + minGap env_oauth \<le> 1700000003005000000"
proof -
  obtain s where s: "run env_oauth two_fetchers (limiter_init 1700000000000000000) = Some s"
    using two_fetchers_requests by (cases "run env_oauth two_fetchers (limiter_init 1700000000000000000)") auto
  have rq: "(1700000003000000000, 1700000003005000000) \<in> set (l_requests s)"
    and stamped: "1700000000000000000 \<in> set (l_stamps s)"
    using two_fetchers_requests two_fetchers_stamps s by simp_all
  have start: "lastOpenSkyCall server_token \<le> clock server_token"
    using first_fetch_eval by simp
  have between: "lastOpenSkyCall first_fetch \<le> lastOpenSkyCall second_start"
    "lastOpenSkyCall second_start \<le> clock second_start"
    using first_fetch_eval second_start_eval by simp_all
  have alone: "l_pc (limiter_init 1700000000000000000) 0 = Idle"
    "l_mutex (limiter_init 1700000000000000000) = None"
    "l_clock (limiter_init 1700000000000000000) = clock server_token"
    "l_lastOpenSkyCall (limiter_init 1700000000000000000) = lastOpenSkyCall server_token"
    by (simp_all add: limiter_init_def fetch_eval)
  note inst = fetchers_keep_min_gap[OF start first_fetch_def between second_fetch_def alone s,
      where tw = token_granted and sx = server_token]
  have cred: "OPENSKY_CLIENT_ID env_oauth \<noteq> []"
    by (simp add: env_oauth_def)
  have gap: "minGap env_oauth = 3000000000"
    using inst cred by (simp add: Second_def)
  have calls: "lastOpenSkyCall first_fetch + minGap env_oauth \<le> lastOpenSkyCall second_fetch"
    using inst by blast
  have reqs: "(1700000000000000000 :: int) + minGap env_oauth \<le> 1700000003005000000"
    using inst rq stamped by fastforce
  from start gap calls reqs show ?thesis
    using first_fetch_eval second_start_eval second_fetch_eval
      two_fetchers_requests two_fetchers_stamps by simp
qed

text \<open>
  The claim as the specification words it fails when the client id is set and the
  client secret is not. No request can carry a credential then, the query goes out
  anonymous, and yet the gap is three seconds: a call entered four seconds after the
  previous stamp does not wait, and its anonymous query starts two seconds short of the
  six.
\<close>

theorem anonymous_query_under_three_second_gap:
  "OPENSKY_CLIENT_SECRET env_nosecret = [] \<and>
   OPENSKY_USERNAME env_nosecret = [] \<and>
   lastOpenSkyCall server_recent = 1699999996000000000 \<and>
   requests (snd (fetchOpenSkyData lib0 env_nosecret fetch_rows server_recent region_taiwan)) =
     [StatesQuery region_taiwan NoAuth] \<and>
   newQueryStarts server_recent
     (snd (fetchOpenSkyData lib0 env_nosecret fetch_rows server_recent region_taiwan)) =
     [1700000000000000000] \<and>
   (1700000000000000000 :: int) < 1699999996000000000 + 6 * Second \<and>
   minGap env_nosecret = 3 * Second"
  by (simp add: fetch_eval)

text \<open>
  With the username set and no password the prologue takes the three-second gap as well,
  and the query carries no credential.
\<close>

lemma username_alone_takes_short_gap:
  "minGap env_useronly = 3 * Second \<and>
   requests (snd (fetchOpenSkyData lib0 env_useronly fetch_rows server_recent region_taiwan)) =
     [StatesQuery region_taiwan NoAuth] \<and>
   lastOpenSkyCall (snd (fetchOpenSkyData lib0 env_useronly fetch_rows server_recent region_taiwan)) =
     lastOpenSkyCall server_recent + 4 * Second"
  by (simp add: env_useronly_def fetch_eval)

text \<open>
  A second fetcher cannot take the mutex while the first holds it, and cannot leave its
  sleep before the gap has passed.
\<close>

lemma second_fetcher_is_held_back:
  "run env_oauth [Lock 0, Check 0, Stamp 0, Lock 1] (limiter_init 1700000000000000000) = None \<and>
   run env_oauth
     [Lock 0, Check 0, Stamp 0, Unlock 0, Lock 1, Tick 1000000000, Check 1, Request 0,
      Tick 1000000000, Wake 1] (limiter_init 1700000000000000000) = None"
  by (simp add: limiter_eval)

end
